theory Spec2Isabelle
  imports Main "HOL-Library.Multiset"
begin

section \<open>Data model\<close>

text \<open>
  Modelled from the spec: the type declarations of \<^verbatim>\<open>src/types.ts\<close> are not among the
  sources. The suits and ranks are the elements of the constants \<^verbatim>\<open>SUITS\<close> and
  \<^verbatim>\<open>RANKS\<close> of \<^verbatim>\<open>utils/deck.ts\<close>; the fields of a card are the ones \<^verbatim>\<open>createDeck\<close>
  writes; the fields of the game state are the ones of the initial \<^verbatim>\<open>useState\<close> value in
  \<^verbatim>\<open>App.tsx\<close>; the status values are the string literals \<^verbatim>\<open>App.tsx\<close> compares with and
  assigns.
\<close>

datatype Suit = hearts | diamonds | clubs | spades

datatype Rank = RA | R2 | R3 | R4 | R5 | R6 | R7 | R8 | R9 | R10 | RJ | RQ | RK

record Card =
  card_id :: string
  suit :: Suit
  rank :: Rank

datatype Who = Player | Ai

datatype GameStatus = menu | waiting | playing | suit_selection | game_over

text \<open>
  The field \<^verbatim>\<open>lastAction\<close> holds a message for the status line. The messages are kept
  apart by a constructor each; the played card and the nominated suit are the values the
  message text is built from.
\<close>

datatype Action =
    Welcome
  | GameStarted
  | Reshuffled
  | YouWin
  | AiWins
  | Played Who Card "Suit option"
  | Drew Who
  | AiSkipped

record GameState =
  deck :: "Card list"
  playerHand :: "Card list"
  aiHand :: "Card list"
  discardPile :: "Card list"
  currentSuit :: "Suit option"
  turn :: Who
  status :: GameStatus
  winner :: "Who option"
  lastAction :: Action

text \<open>
  The component holds two pieces of React state: the game state and the wild card the
  human has clicked but not yet given a suit (\<^verbatim>\<open>pendingEightCard\<close>).
\<close>

record App =
  state :: GameState
  pendingEightCard :: "Card option"

section \<open>utils/deck.ts\<close>

definition SUITS :: "Suit list" where
  "SUITS = [hearts, diamonds, clubs, spades]"

definition RANKS :: "Rank list" where
  "RANKS = [RA, R2, R3, R4, R5, R6, R7, R8, R9, R10, RJ, RQ, RK]"

fun rankStr :: "Rank \<Rightarrow> string" where
  "rankStr RA = ''A''"
| "rankStr R2 = ''2''"
| "rankStr R3 = ''3''"
| "rankStr R4 = ''4''"
| "rankStr R5 = ''5''"
| "rankStr R6 = ''6''"
| "rankStr R7 = ''7''"
| "rankStr R8 = ''8''"
| "rankStr R9 = ''9''"
| "rankStr R10 = ''10''"
| "rankStr RJ = ''J''"
| "rankStr RQ = ''Q''"
| "rankStr RK = ''K''"

fun suitStr :: "Suit \<Rightarrow> string" where
  "suitStr hearts = ''hearts''"
| "suitStr diamonds = ''diamonds''"
| "suitStr clubs = ''clubs''"
| "suitStr spades = ''spades''"

text \<open>
  The two nested loops of \<^verbatim>\<open>createDeck\<close> before the shuffle. The random suffix of the
  \<open>k\<close>-th identifier, \<^verbatim>\<open>Math.random().toString(36).substr(2, 9)\<close>, is the parameter
  \<open>tok k\<close>.
\<close>

definition mkCard :: "(nat \<Rightarrow> string) \<Rightarrow> nat \<times> Suit \<times> Rank \<Rightarrow> Card" where
  "mkCard tok = (\<lambda>(k, s, r).
     \<lparr>card_id = rankStr r @ ''-'' @ suitStr s @ ''-'' @ tok k, suit = s, rank = r\<rparr>)"

definition build :: "(nat \<Rightarrow> string) \<Rightarrow> Card list" where
  "build tok = map (mkCard tok) (enumerate 0 (List.product SUITS RANKS))"

text \<open>
  \<^verbatim>\<open>shuffle\<close>: Fisher-Yates from the last index down to 1 on a copy of the argument.
  Each call of \<^verbatim>\<open>Math.random\<close> is one element of the parameter \<open>rs\<close>;
  \<^verbatim>\<open>Math.floor(Math.random() * (i + 1))\<close> is an index between 0 and \<open>i\<close>, here the
  element reduced modulo \<open>i + 1\<close> (0 once the list is used up).
\<close>

fun shuffle_loop :: "nat list \<Rightarrow> nat \<Rightarrow> 'a list \<Rightarrow> 'a list" where
  "shuffle_loop rs 0 newDeck = newDeck"
| "shuffle_loop rs (Suc k) newDeck =
     (let i = Suc k;
          j = (case rs of [] \<Rightarrow> 0 | r # _ \<Rightarrow> r mod (i + 1))
      in shuffle_loop (tl rs) k (newDeck[i := newDeck ! j, j := newDeck ! i]))"

definition shuffle :: "nat list \<Rightarrow> 'a list \<Rightarrow> 'a list" where
  "shuffle rs deck0 = shuffle_loop rs (length deck0 - 1) deck0"

definition createDeck :: "(nat \<Rightarrow> string) \<Rightarrow> nat list \<Rightarrow> Card list" where
  "createDeck tok rs = shuffle rs (build tok)"

text \<open>
  \<^verbatim>\<open>canPlay\<close>. A missing card or top card (\<^verbatim>\<open>null\<close>, \<^verbatim>\<open>undefined\<close>) is \<open>None\<close>. A suit is
  a non-empty string, so \<^verbatim>\<open>currentSuit || topCard.suit\<close> is the override when there is
  one and the suit of the top card otherwise.
\<close>

definition canPlay :: "Card option \<Rightarrow> Card option \<Rightarrow> Suit option \<Rightarrow> bool" where
  "canPlay card0 topCard currentSuit' =
     (case card0 of
        None \<Rightarrow> False
      | Some crd \<Rightarrow>
          if rank crd = R8 then True
          else (case topCard of
                  None \<Rightarrow> True
                | Some t \<Rightarrow>
                    (let targetSuit = (case currentSuit' of Some s \<Rightarrow> s | None \<Rightarrow> suit t)
                     in suit crd = targetSuit \<or> rank crd = rank t)))"

section \<open>App.tsx\<close>

text \<open>\<^verbatim>\<open>xs[xs.length - 1]\<close>: the last element, \<^verbatim>\<open>undefined\<close> on an empty array.\<close>

definition topOf :: "Card list \<Rightarrow> Card option" where
  "topOf xs = (if xs = [] then None else Some (last xs))"

text \<open>\<^verbatim>\<open>findIndex\<close>: the first index whose element satisfies the test; \<open>None\<close> is -1.\<close>

fun findIndex :: "('a \<Rightarrow> bool) \<Rightarrow> 'a list \<Rightarrow> nat option" where
  "findIndex P [] = None"
| "findIndex P (x # xs) =
     (if P x then Some 0 else map_option Suc (findIndex P xs))"

text \<open>
  \<^verbatim>\<open>initGame\<close> after the call of \<^verbatim>\<open>createDeck\<close>. \<^verbatim>\<open>splice(0, 8)\<close> cuts the first eight
  cards off the deck, twice. \<^verbatim>\<open>splice(firstCardIndex, 1)\<close> cuts one card out and returns
  the list of the cards it removed, kept here as \<open>take 1 (drop i rest)\<close>; its element 0
  exists whenever the remainder is not empty, and the remainder of a full deck has 36
  cards (lemma \<open>length_createDeck\<close>).
\<close>

definition dealFrom :: "Card list \<Rightarrow> GameState" where
  "dealFrom fullDeck =
     (let playerHand' = take 8 fullDeck;
          fullDeck1 = drop 8 fullDeck;
          aiHand' = take 8 fullDeck1;
          fullDeck2 = drop 8 fullDeck1;
          firstCardIndex = (case findIndex (\<lambda>c. rank c \<noteq> R8) fullDeck2 of
                              None \<Rightarrow> 0 | Some i \<Rightarrow> i);
          discardPile' = take 1 (drop firstCardIndex fullDeck2);
          fullDeck3 = take firstCardIndex fullDeck2 @ drop (Suc firstCardIndex) fullDeck2
      in \<lparr>deck = fullDeck3,
          playerHand = playerHand',
          aiHand = aiHand',
          discardPile = discardPile',
          currentSuit = None,
          turn = Player,
          status = playing,
          winner = None,
          lastAction = GameStarted\<rparr>)"

definition initGame :: "(nat \<Rightarrow> string) \<Rightarrow> nat list \<Rightarrow> GameState" where
  "initGame tok rs = dealFrom (createDeck tok rs)"

text \<open>The updater of \<^verbatim>\<open>reshuffleIfNeeded\<close>.\<close>

definition reshuffleIfNeeded :: "nat list \<Rightarrow> GameState \<Rightarrow> GameState" where
  "reshuffleIfNeeded rs prev =
     (if length (deck prev) > 2 \<or> length (discardPile prev) \<le> 1 then prev
      else
        let topCard = last (discardPile prev);
            restOfDiscard = butlast (discardPile prev);
            newDeck = shuffle rs (deck prev @ restOfDiscard)
        in prev\<lparr>deck := newDeck, discardPile := [topCard], lastAction := Reshuffled\<rparr>)"

text \<open>The effect that checks for a winner, as a function of the state it reads.\<close>

definition checkWinner :: "GameState \<Rightarrow> GameState" where
  "checkWinner s =
     (if status s = playing then
        if length (playerHand s) = 0 then
          s\<lparr>status := game_over, winner := Some Player, lastAction := YouWin\<rparr>
        else if length (aiHand s) = 0 then
          s\<lparr>status := game_over, winner := Some Ai, lastAction := AiWins\<rparr>
        else s
      else s)"

text \<open>The updater of \<^verbatim>\<open>playCard\<close>; \<^verbatim>\<open>chosenSuit || null\<close> is the optional argument.\<close>

definition playCard :: "Card \<Rightarrow> Who \<Rightarrow> Suit option \<Rightarrow> GameState \<Rightarrow> GameState" where
  "playCard crd who chosenSuit prev =
     (let isPlayer = (who = Player);
          hand = (if isPlayer then playerHand prev else aiHand prev);
          newHand = filter (\<lambda>c. card_id c \<noteq> card_id crd) hand;
          prev1 = (if isPlayer then prev\<lparr>playerHand := newHand\<rparr>
                   else prev\<lparr>aiHand := newHand\<rparr>)
      in prev1\<lparr>discardPile := discardPile prev @ [crd],
               currentSuit := chosenSuit,
               turn := (if isPlayer then Ai else Player),
               lastAction := Played who crd chosenSuit\<rparr>)"

text \<open>
  \<^verbatim>\<open>drawCard\<close>: its updater, and then \<^verbatim>\<open>reshuffleIfNeeded\<close>, whose updater React applies
  to the result of the first.
\<close>

definition drawCardUpdate :: "Who \<Rightarrow> GameState \<Rightarrow> GameState" where
  "drawCardUpdate who prev =
     (if length (deck prev) = 0 then prev
      else
        let newDeck = butlast (deck prev);
            drawnCard = last (deck prev);
            isPlayer = (who = Player);
            hand = (if isPlayer then playerHand prev else aiHand prev);
            topCard = topOf (discardPile prev);
            canPlayDrawn = canPlay (Some drawnCard) topCard (currentSuit prev);
            prev1 = (if isPlayer then prev\<lparr>playerHand := hand @ [drawnCard]\<rparr>
                     else prev\<lparr>aiHand := hand @ [drawnCard]\<rparr>)
        in prev1\<lparr>deck := newDeck,
                 turn := (if isPlayer then (if canPlayDrawn then Player else Ai)
                          else (if canPlayDrawn then Ai else Player)),
                 lastAction := Drew who\<rparr>)"

definition drawCard :: "nat list \<Rightarrow> Who \<Rightarrow> GameState \<Rightarrow> GameState" where
  "drawCard rs who prev = reshuffleIfNeeded rs (drawCardUpdate who prev)"

text \<open>
  The automated turn. \<open>suitCounts\<close> is the record of counters after the \<^verbatim>\<open>forEach\<close>,
  \<open>bestSuit\<close> the \<^verbatim>\<open>reduce\<close> over its keys in the order they were written
  (hearts, diamonds, clubs, spades), which starts from the first key.
\<close>

definition suitCounts :: "Card \<Rightarrow> Card list \<Rightarrow> Suit \<Rightarrow> nat" where
  "suitCounts cardToPlay hand =
     foldl (\<lambda>cnt c. if card_id c \<noteq> card_id cardToPlay then cnt(suit c := cnt (suit c) + 1) else cnt)
       (\<lambda>_. 0) hand"

definition bestSuit :: "(Suit \<Rightarrow> nat) \<Rightarrow> Suit" where
  "bestSuit cnt = foldl (\<lambda>a b. if cnt a > cnt b then a else b) hearts [diamonds, clubs, spades]"

definition aiTurnUpdate :: "GameState \<Rightarrow> GameState" where
  "aiTurnUpdate current =
     (if status current \<noteq> playing \<or> turn current \<noteq> Ai then current
      else case topOf (discardPile current) of
        None \<Rightarrow> current
      | Some topCard \<Rightarrow>
          (let playableCards =
                 filter (\<lambda>crd. canPlay (Some crd) (Some topCard) (currentSuit current))
                   (aiHand current)
           in if length playableCards > 0 then
                (let nonEight = List.find (\<lambda>c. rank c \<noteq> R8) playableCards;
                     cardToPlay = (case nonEight of Some c \<Rightarrow> c | None \<Rightarrow> hd playableCards)
                 in if rank cardToPlay = R8 then
                      (let best = bestSuit (suitCounts cardToPlay (aiHand current));
                           newHand = filter (\<lambda>c. card_id c \<noteq> card_id cardToPlay) (aiHand current)
                       in current\<lparr>aiHand := newHand,
                                  discardPile := discardPile current @ [cardToPlay],
                                  currentSuit := Some best,
                                  turn := Player,
                                  lastAction := Played Ai cardToPlay (Some best)\<rparr>)
                    else
                      (let newHand = filter (\<lambda>c. card_id c \<noteq> card_id cardToPlay) (aiHand current)
                       in current\<lparr>aiHand := newHand,
                                  discardPile := discardPile current @ [cardToPlay],
                                  currentSuit := None,
                                  turn := Player,
                                  lastAction := Played Ai cardToPlay None\<rparr>))
              else if length (deck current) > 0 then
                (let newDeck = butlast (deck current);
                     drawnCard = last (deck current);
                     canPlayDrawn = canPlay (Some drawnCard) (Some topCard) (currentSuit current)
                 in current\<lparr>deck := newDeck,
                            aiHand := aiHand current @ [drawnCard],
                            turn := (if canPlayDrawn then Ai else Player),
                            lastAction := Drew Ai\<rparr>)
              else current\<lparr>turn := Player, lastAction := AiSkipped\<rparr>))"

text \<open>
  The effect sets its timer only when the game is being played and it is the automated
  player's turn; the timer runs the updater and then \<^verbatim>\<open>reshuffleIfNeeded\<close>.
\<close>

definition aiTurn :: "nat list \<Rightarrow> GameState \<Rightarrow> GameState" where
  "aiTurn rs s =
     (if status s = playing \<and> turn s = Ai then reshuffleIfNeeded rs (aiTurnUpdate s) else s)"

definition handlePlayerPlay :: "Card \<Rightarrow> App \<Rightarrow> App" where
  "handlePlayerPlay crd a =
     (if turn (state a) \<noteq> Player \<or> status (state a) \<noteq> playing then a
      else
        let topCard = topOf (discardPile (state a))
        in if topCard = None \<or> \<not> canPlay (Some crd) topCard (currentSuit (state a)) then a
           else if rank crd = R8 then
             a\<lparr>pendingEightCard := Some crd, state := (state a)\<lparr>status := suit_selection\<rparr>\<rparr>
           else a\<lparr>state := playCard crd Player None (state a)\<rparr>)"

text \<open>
  \<^verbatim>\<open>handleSuitSelect\<close> is a closure of the render that created it: the
  \<^verbatim>\<open>pendingEightCard\<close> it tests and plays is the value of that render, the first
  argument here, while its three state updates run on the current state. It has no test
  of the status or of the turn, and the suit buttons call it with no test of their own.
  The buttons of the suit modal of the current render carry the current
  \<^verbatim>\<open>pendingEightCard\<close>; the modal is rendered under \<^verbatim>\<open>AnimatePresence\<close> with an exit
  animation, and while it fades out its buttons still carry the handler of the render in
  which the card was pending.
\<close>

definition handleSuitSelect :: "Card option \<Rightarrow> Suit \<Rightarrow> App \<Rightarrow> App" where
  "handleSuitSelect pendingEightCard' suit' a =
     (case pendingEightCard' of
        None \<Rightarrow> a
      | Some c \<Rightarrow>
          a\<lparr>state := (playCard c Player (Some suit') (state a))\<lparr>status := playing\<rparr>,
            pendingEightCard := None\<rparr>)"

text \<open>
  The click handler of the draw pile: it calls \<^verbatim>\<open>drawCard('player')\<close> only on the
  human's turn of a game being played.
\<close>

definition deckClick :: "nat list \<Rightarrow> App \<Rightarrow> App" where
  "deckClick rs a =
     (if turn (state a) = Player \<and> status (state a) = playing
      then a\<lparr>state := drawCard rs Player (state a)\<rparr> else a)"

section \<open>The zones of a game\<close>

text \<open>The four zones a card can be in, as one list.\<close>

definition zones :: "GameState \<Rightarrow> Card list" where
  "zones s = playerHand s @ aiHand s @ deck s @ discardPile s"

text \<open>The cards of the four zones are the cards of the deck that was built, each once.\<close>

definition conserved :: "(nat \<Rightarrow> string) \<Rightarrow> GameState \<Rightarrow> bool" where
  "conserved tok s = (mset (zones s) = mset (build tok))"

text \<open>
  The automated turn and the winner effect on the state of the component.
\<close>

definition aiTurnApp :: "nat list \<Rightarrow> App \<Rightarrow> App" where
  "aiTurnApp rs a = a\<lparr>state := aiTurn rs (state a)\<rparr>"

definition winnerEffect :: "App \<Rightarrow> App" where
  "winnerEffect a = a\<lparr>state := checkWinner (state a)\<rparr>"

text \<open>A list of operations, run from left to right.\<close>

definition runOps :: "(App \<Rightarrow> App) list \<Rightarrow> App \<Rightarrow> App" where
  "runOps ops a = foldl (\<lambda>b f. f b) a ops"

text \<open>
  Names for two values of the automated turn: the legal candidates of its hand against
  the top card, and the candidate it plays.
\<close>

definition playable :: "GameState \<Rightarrow> Card list" where
  "playable s =
     filter (\<lambda>crd. canPlay (Some crd) (Some (last (discardPile s))) (currentSuit s)) (aiHand s)"

definition chosen :: "GameState \<Rightarrow> Card" where
  "chosen s =
     (case List.find (\<lambda>c. rank c \<noteq> R8) (playable s) of
        Some c \<Rightarrow> c | None \<Rightarrow> hd (playable s))"

text \<open>The hand of a player (\<^verbatim>\<open>isPlayer ? prev.playerHand : prev.aiHand\<close>) and the other player.\<close>

definition handOf :: "Who \<Rightarrow> GameState \<Rightarrow> Card list" where
  "handOf who s = (if who = Player then playerHand s else aiHand s)"

definition otherPlayer :: "Who \<Rightarrow> Who" where
  "otherPlayer who = (if who = Player then Ai else Player)"

text \<open>
  The position of a suit in the order in which the counters are written, and the number
  of cards of a suit in a list.
\<close>

fun suitIndex :: "Suit \<Rightarrow> nat" where
  "suitIndex hearts = 0"
| "suitIndex diamonds = 1"
| "suitIndex clubs = 2"
| "suitIndex spades = 3"

definition countSuit :: "Card list \<Rightarrow> Suit \<Rightarrow> nat" where
  "countSuit xs su = length (filter (\<lambda>c. suit c = su) xs)"

section \<open>Example cards and states\<close>

text \<open>A card of a given suit and rank, and a state of a game being played.\<close>

definition exCard :: "Suit \<Rightarrow> Rank \<Rightarrow> Card" where
  "exCard s r = \<lparr>card_id = rankStr r @ ''-'' @ suitStr s @ ''-x'', suit = s, rank = r\<rparr>"

definition exState :: "Card list \<Rightarrow> Card list \<Rightarrow> Card list \<Rightarrow> Card list \<Rightarrow> Suit option \<Rightarrow> Who \<Rightarrow> GameState" where
  "exState d ph ah dp cs t =
     \<lparr>deck = d, playerHand = ph, aiHand = ah, discardPile = dp, currentSuit = cs,
      turn = t, status = playing, winner = None, lastAction = GameStarted\<rparr>"

definition exTok :: "nat \<Rightarrow> string" where
  "exTok k = ''x''"

definition wildClickApp :: App where
  "wildClickApp =
     \<lparr>state = exState [exCard clubs R2] [exCard hearts R8, exCard clubs R5] [exCard spades RK]
                [exCard diamonds R8] (Some spades) Player,
      pendingEightCard = None\<rparr>"

definition emptyPileHuman :: App where
  "emptyPileHuman =
     \<lparr>state = exState [] [exCard clubs R5] [exCard spades RK] [exCard diamonds R3] None Player,
      pendingEightCard = None\<rparr>"

definition emptyPileAi :: GameState where
  "emptyPileAi = exState [] [exCard spades RK] [exCard clubs R5]
             [exCard spades R2, exCard diamonds R3] None Ai"

definition drawHuman :: GameState where
  "drawHuman = exState [exCard clubs R2, exCard clubs R3, exCard clubs R4, exCard diamonds R9]
                [exCard clubs R5] [exCard clubs R6] [exCard diamonds R3] None Player"

definition drawAiKeep :: GameState where
  "drawAiKeep = exState [exCard clubs R2, exCard clubs R3, exCard clubs R4, exCard diamonds R9]
             [exCard clubs R5] [exCard clubs R6] [exCard diamonds R3] None Ai"

definition drawAiPass :: GameState where
  "drawAiPass = exState [exCard clubs R2, exCard clubs R3, exCard diamonds R9, exCard clubs R4]
             [exCard clubs R5] [exCard clubs R6] [exCard diamonds R3] None Ai"

text \<open>
  A started game: identifiers with the suffix \<open>x\<close>, and a shuffle whose random draws are
  all 0, which moves the first card of the built deck to the end. The human holds the
  hearts from 2 to 9, the automated player the hearts from 10 to king and the diamonds
  from ace to 4, and the discard pile starts with the 5 of diamonds.
\<close>

definition startedApp :: App where
  "startedApp = \<lparr>state = initGame exTok [], pendingEightCard = None\<rparr>"

text \<open>
  The human clicks the 8 of hearts and chooses hearts; a second click, on diamonds, comes
  from the buttons of the fading suit modal, whose handler holds the card that was
  pending when the modal was rendered.
\<close>

definition firstPending :: App where
  "firstPending = handlePlayerPlay (exCard hearts R8) startedApp"

definition firstChoice :: App where
  "firstChoice = handleSuitSelect (pendingEightCard firstPending) hearts firstPending"

definition secondChoice :: App where
  "secondChoice = handleSuitSelect (pendingEightCard firstPending) diamonds firstChoice"

text \<open>
  A game from the same start in which the human plays the hearts 5, 2, 3, 4, 6, 7 and 9,
  each followed by the automated turns it leaves room for, and then clicks the 8 of
  hearts as the last card. The winner effect changes nothing before the last card is gone
  and is left out until then.
\<close>

definition lastCardOps :: "(App \<Rightarrow> App) list" where
  "lastCardOps =
     [handlePlayerPlay (exCard hearts R5), aiTurnApp [],
      handlePlayerPlay (exCard hearts R2), aiTurnApp [],
      handlePlayerPlay (exCard hearts R3), aiTurnApp [],
      handlePlayerPlay (exCard hearts R4), aiTurnApp [],
      handlePlayerPlay (exCard hearts R6), aiTurnApp [], aiTurnApp [],
      handlePlayerPlay (exCard hearts R7), aiTurnApp [],
      handlePlayerPlay (exCard hearts R9), aiTurnApp [],
      handlePlayerPlay (exCard hearts R8)]"

definition lastPending :: App where
  "lastPending = runOps lastCardOps startedApp"

text \<open>
  The human chooses hearts, the hand is empty and the winner effect finishes the game;
  then the second click on the fading suit modal arrives.
\<close>

definition wonApp :: App where
  "wonApp = winnerEffect (handleSuitSelect (pendingEightCard lastPending) hearts lastPending)"

definition reopenedApp :: App where
  "reopenedApp = handleSuitSelect (pendingEightCard lastPending) diamonds wonApp"

definition policyPlain :: GameState where
  "policyPlain = exState [exCard clubs R2]  [exCard clubs R9]
                [exCard diamonds R8, exCard hearts R5, exCard clubs R5] [exCard spades R5] None Ai"

definition policyWild :: GameState where
  "policyWild = exState [exCard clubs R2]  [exCard clubs R9]
                [exCard hearts R4, exCard diamonds R8, exCard clubs R6, exCard diamonds R7]
                [exCard spades R5] None Ai"

section \<open>The legality predicate\<close>

text \<open>
  C1. For every card \<open>c\<close>, top card \<open>t\<close> (possibly absent) and optional override \<open>s\<close>,
  \<open>canPlay\<close> holds exactly when the rank of \<open>c\<close> is the wild rank 8, or \<open>t\<close> is absent,
  or the suit of \<open>c\<close> is the override if there is one and the suit of \<open>t\<close> otherwise, or
  the ranks of \<open>c\<close> and \<open>t\<close> agree.
\<close>

theorem canPlay_iff:
  "canPlay (Some c) t s =
     (rank c = R8 \<or>
      (case t of
         None \<Rightarrow> True
       | Some tc \<Rightarrow> suit c = (case s of Some x \<Rightarrow> x | None \<Rightarrow> suit tc) \<or> rank c = rank tc))"
  by (cases t) (simp_all add: canPlay_def)

text \<open>
  C10. \<open>canPlay\<close> is a total function, and on an absent card it is false for every top
  card and every override.
\<close>

theorem canPlay_absent_card: "canPlay None t s = False"
  by (simp add: canPlay_def)

section \<open>Shuffling and the built deck\<close>

lemma shuffle_loop_mset:
  "k < length xs \<Longrightarrow> mset (shuffle_loop rs k xs) = mset xs"
proof (induction k arbitrary: rs xs)
  case 0
  then show ?case by simp
next
  case (Suc k)
  define j where "j = (case rs of [] \<Rightarrow> 0 | r # _ \<Rightarrow> r mod (Suc k + 1))"
  have jle: "j < length xs"
    using Suc.prems by (auto simp: j_def split: list.splits intro: less_le_trans[OF mod_less_divisor])
  let ?ys = "xs[Suc k := xs ! j, j := xs ! Suc k]"
  have "mset ?ys = mset xs"
    using Suc.prems jle by (simp add: mset_swap)
  moreover have "k < length ?ys" using Suc.prems by simp
  ultimately have "mset (shuffle_loop (tl rs) k ?ys) = mset xs"
    using Suc.IH[of ?ys "tl rs"] by simp
  then show ?case by (simp add: j_def Let_def)
qed

lemma mset_shuffle: "mset (shuffle rs xs) = mset xs"
proof (cases xs)
  case Nil
  then show ?thesis by (simp add: shuffle_def)
next
  case (Cons a list)
  then show ?thesis by (simp add: shuffle_def shuffle_loop_mset)
qed

lemma length_shuffle: "length (shuffle rs xs) = length xs"
  using mset_shuffle[of rs xs] by (metis size_mset)

lemma set_shuffle: "set (shuffle rs xs) = set xs"
  using mset_shuffle[of rs xs] by (metis set_mset_mset)

lemma length_build: "length (build tok) = 52"
  by (simp add: build_def SUITS_def RANKS_def)

lemma suit_rank_build:
  "map (\<lambda>c. (suit c, rank c)) (build tok) = List.product SUITS RANKS"
  by (simp add: build_def mkCard_def enumerate_eq_zip comp_def split_def map_idI)

lemma rankStr_inj: "rankStr r @ CHR ''-'' # x = rankStr r' @ CHR ''-'' # y \<Longrightarrow> r = r'"
  by (cases r; cases r'; simp)

lemma suitStr_inj: "suitStr s @ CHR ''-'' # x = suitStr s' @ CHR ''-'' # y \<Longrightarrow> s = s'"
  by (cases s; cases s'; simp)

lemma distinct_map_via:
  assumes dg: "distinct (map g xs)"
    and fg: "\<And>x y. x \<in> set xs \<Longrightarrow> y \<in> set xs \<Longrightarrow> f x = f y \<Longrightarrow> g x = g y"
  shows "distinct (map f xs)"
proof -
  from dg have d: "distinct xs" and i: "inj_on g (set xs)"
    by (simp_all add: distinct_map)
  have "inj_on f (set xs)"
  proof (rule inj_onI)
    fix x y
    assume x: "x \<in> set xs" and y: "y \<in> set xs" and "f x = f y"
    then have "g x = g y" by (rule fg)
    with i x y show "x = y" by (simp add: inj_on_def)
  qed
  with d show ?thesis by (simp add: distinct_map)
qed

lemma build_card_id:
  "c \<in> set (build tok) \<Longrightarrow> \<exists>t. card_id c = rankStr (rank c) @ CHR ''-'' # suitStr (suit c) @ CHR ''-'' # t"
proof -
  assume "c \<in> set (build tok)"
  then obtain k s r where "c = mkCard tok (k, s, r)"
    unfolding build_def by (metis imageE list.set_map prod_cases3)
  then show ?thesis by (simp add: mkCard_def)
qed

lemma distinct_product_suits_ranks: "distinct (List.product SUITS RANKS)"
  by (simp add: SUITS_def RANKS_def distinct_product)

lemma distinct_ids_build: "distinct (map card_id (build tok))"
proof (rule distinct_map_via[where g = "\<lambda>c. (suit c, rank c)"])
  show "distinct (map (\<lambda>c. (suit c, rank c)) (build tok))"
    by (simp add: suit_rank_build distinct_product_suits_ranks)
next
  fix x y
  assume x: "x \<in> set (build tok)" and y: "y \<in> set (build tok)" and eq: "card_id x = card_id y"
  from build_card_id[OF x] obtain t where
    tx: "card_id x = rankStr (rank x) @ CHR ''-'' # suitStr (suit x) @ CHR ''-'' # t" by blast
  from build_card_id[OF y] obtain u where
    uy: "card_id y = rankStr (rank y) @ CHR ''-'' # suitStr (suit y) @ CHR ''-'' # u" by blast
  from eq tx uy have e: "rankStr (rank x) @ CHR ''-'' # suitStr (suit x) @ CHR ''-'' # t
      = rankStr (rank y) @ CHR ''-'' # suitStr (suit y) @ CHR ''-'' # u" by simp
  then have r: "rank x = rank y" by (rule rankStr_inj)
  with e have "suitStr (suit x) @ CHR ''-'' # t = suitStr (suit y) @ CHR ''-'' # u" by simp
  then have "suit x = suit y" by (rule suitStr_inj)
  with r show "(suit x, rank x) = (suit y, rank y)" by simp
qed

lemma conserved_distinct_ids: "conserved tok s \<Longrightarrow> distinct (map card_id (zones s))"
proof -
  assume "conserved tok s"
  then have "mset (map card_id (zones s)) = mset (map card_id (build tok))"
    unfolding conserved_def by (metis mset_map)
  then show ?thesis
    using distinct_ids_build[of tok] by (metis mset_eq_imp_distinct_iff)
qed

lemma conserved_length: "conserved tok s \<Longrightarrow> length (zones s) = 52"
  by (metis conserved_def length_build size_mset)

lemma filter_id_mset:
  "distinct (map card_id xs) \<Longrightarrow> c \<in> set xs \<Longrightarrow>
     mset (filter (\<lambda>x. card_id x \<noteq> card_id c) xs) + {#c#} = mset xs"
proof (induction xs)
  case Nil
  then show ?case by simp
next
  case (Cons a xs)
  show ?case
  proof (cases "a = c")
    case True
    with Cons.prems have "card_id c \<notin> card_id ` set xs" by simp
    then have "\<forall>x\<in>set xs. card_id x \<noteq> card_id c" by (metis imageI)
    then have "filter (\<lambda>x. card_id x \<noteq> card_id c) xs = xs" by (simp add: filter_id_conv)
    with True show ?thesis by simp
  next
    case False
    with Cons.prems have "c \<in> set xs" "card_id a \<noteq> card_id c" by auto
    with Cons show ?thesis by simp
  qed
qed

lemma butlast_last_mset: "xs \<noteq> [] \<Longrightarrow> mset (butlast xs) + {#last xs#} = mset xs"
proof -
  assume "xs \<noteq> []"
  then have "mset xs = mset (butlast xs @ [last xs])" by simp
  then show ?thesis by simp
qed

lemma conserved_checkWinner: "conserved tok s \<Longrightarrow> conserved tok (checkWinner s)"
  by (auto simp: conserved_def zones_def checkWinner_def)

lemma conserved_reshuffle: "conserved tok s \<Longrightarrow> conserved tok (reshuffleIfNeeded rs s)"
proof (cases "length (deck s) > 2 \<or> length (discardPile s) \<le> 1")
  case True
  assume "conserved tok s"
  with True show ?thesis by (simp add: reshuffleIfNeeded_def)
next
  case False
  assume c: "conserved tok s"
  from False have ne: "discardPile s \<noteq> []" by auto
  have "mset (zones (reshuffleIfNeeded rs s)) =
      mset (playerHand s) + mset (aiHand s) + (mset (deck s) + mset (butlast (discardPile s)))
        + {#last (discardPile s)#}"
    using False by (simp add: reshuffleIfNeeded_def zones_def Let_def mset_shuffle)
  also have "\<dots> = mset (zones s)"
    using butlast_last_mset[OF ne] by (simp add: zones_def add.assoc)
  finally show ?thesis using c by (simp add: conserved_def)
qed

lemma conserved_drawCardUpdate: "conserved tok s \<Longrightarrow> conserved tok (drawCardUpdate who s)"
proof (cases "deck s = []")
  case True
  assume "conserved tok s"
  with True show ?thesis by (simp add: drawCardUpdate_def)
next
  case False
  assume c: "conserved tok s"
  have "mset (zones (drawCardUpdate who s)) =
      mset (playerHand s) + mset (aiHand s) + (mset (butlast (deck s)) + {#last (deck s)#})
        + mset (discardPile s)"
    using False by (simp add: drawCardUpdate_def zones_def Let_def)
  also have "\<dots> = mset (zones s)"
    using butlast_last_mset[OF False] by (simp add: zones_def)
  finally show ?thesis using c by (simp add: conserved_def)
qed

lemma conserved_playCard_player:
  assumes c: "conserved tok s" and m: "crd \<in> set (playerHand s)"
  shows "conserved tok (playCard crd Player cs s)"
proof -
  have "distinct (map card_id (playerHand s))"
    using conserved_distinct_ids[OF c] by (simp add: zones_def)
  from filter_id_mset[OF this m]
  have "mset (zones (playCard crd Player cs s)) = mset (zones s)"
    by (simp add: playCard_def zones_def Let_def add.assoc add.commute add.left_commute)
  with c show ?thesis by (simp add: conserved_def)
qed

lemma conserved_status_update: "conserved tok (s\<lparr>status := x\<rparr>) = conserved tok s"
  by (simp add: conserved_def zones_def)

lemma findIndex_Some:
  "findIndex P xs = Some i \<Longrightarrow> i < length xs \<and> P (xs ! i) \<and> (\<forall>j<i. \<not> P (xs ! j))"
proof (induction xs arbitrary: i)
  case Nil
  then show ?case by simp
next
  case (Cons x xs)
  show ?case
  proof (cases "P x")
    case True
    with Cons.prems show ?thesis by simp
  next
    case False
    with Cons.prems obtain k where k: "findIndex P xs = Some k" "i = Suc k" by auto
    from Cons.IH[OF k(1)] False k(2) show ?thesis
      by (auto simp: nth_Cons split: nat.splits)
  qed
qed

lemma findIndex_None: "findIndex P xs = None \<Longrightarrow> \<forall>x\<in>set xs. \<not> P x"
  by (induction xs) (auto split: if_splits)

lemma cut_one_mset:
  "i < length r \<Longrightarrow> mset (take i r @ drop (Suc i) r) + mset (take 1 (drop i r)) = mset r"
proof -
  assume i: "i < length r"
  then have t: "take 1 (drop i r) = [r ! i]"
    by (simp add: take_Suc_conv_app_nth)
  have "mset r = mset (take i r @ r ! i # drop (Suc i) r)"
    using id_take_nth_drop[OF i] by simp
  with t show ?thesis by simp
qed

lemma firstCardIndex_less:
  "r \<noteq> [] \<Longrightarrow> (case findIndex P r of None \<Rightarrow> 0 | Some i \<Rightarrow> i) < length r"
  by (auto split: option.splits dest: findIndex_Some)

lemma mset_zones_dealFrom:
  assumes "16 < length fd"
  shows "mset (zones (dealFrom fd)) = mset fd"
proof -
  let ?r = "drop 8 (drop 8 fd)"
  let ?i = "case findIndex (\<lambda>c. rank c \<noteq> R8) ?r of None \<Rightarrow> 0 | Some i \<Rightarrow> i"
  from assms have "?r \<noteq> []" by simp
  then have "?i < length ?r" by (rule firstCardIndex_less)
  then have cut: "mset (take ?i ?r @ drop (Suc ?i) ?r) + mset (take 1 (drop ?i ?r)) = mset ?r"
    by (rule cut_one_mset)
  have "zones (dealFrom fd) =
      take 8 fd @ take 8 (drop 8 fd) @ (take ?i ?r @ drop (Suc ?i) ?r) @ take 1 (drop ?i ?r)"
    by (simp only: dealFrom_def zones_def Let_def GameState.select_convs)
  then have "mset (zones (dealFrom fd)) =
      mset (take 8 fd) + (mset (take 8 (drop 8 fd)) +
        (mset (take ?i ?r @ drop (Suc ?i) ?r) + mset (take 1 (drop ?i ?r))))"
    by (simp only: mset_append)
  also have "\<dots> = mset (take 8 fd) + (mset (take 8 (drop 8 fd)) + mset ?r)"
    by (simp only: cut)
  also have "\<dots> = mset (take 8 fd @ take 8 (drop 8 fd) @ ?r)"
    by (simp only: mset_append)
  also have "take 8 fd @ take 8 (drop 8 fd) @ ?r = fd"
    by (simp only: append_take_drop_id)
  finally show ?thesis .
qed

lemma length_createDeck: "length (createDeck tok rs) = 52"
  by (simp add: createDeck_def length_shuffle length_build)

lemma conserved_initGame: "conserved tok (initGame tok rs)"
  by (simp add: conserved_def initGame_def mset_zones_dealFrom length_createDeck)
     (simp add: createDeck_def mset_shuffle)

lemma chosen_in_playable:
  "ps \<noteq> [] \<Longrightarrow> (case List.find P ps of Some c \<Rightarrow> c | None \<Rightarrow> hd ps) \<in> set ps"
  by (auto split: option.splits simp: find_Some_iff)

lemma conserved_ai_play:
  assumes c: "conserved tok s" and m: "crd \<in> set (aiHand s)"
  shows "conserved tok (s\<lparr>aiHand := filter (\<lambda>c. card_id c \<noteq> card_id crd) (aiHand s),
                          discardPile := discardPile s @ [crd],
                          currentSuit := cs, turn := Player, lastAction := act\<rparr>)"
proof -
  have "distinct (map card_id (aiHand s))"
    using conserved_distinct_ids[OF c] by (simp add: zones_def)
  from filter_id_mset[OF this m]
  have "mset (zones (s\<lparr>aiHand := filter (\<lambda>c. card_id c \<noteq> card_id crd) (aiHand s),
                          discardPile := discardPile s @ [crd],
                          currentSuit := cs, turn := Player, lastAction := act\<rparr>)) = mset (zones s)"
    by (simp add: zones_def add.assoc add.commute add.left_commute)
  with c show ?thesis by (simp add: conserved_def)
qed

lemma conserved_ai_draw:
  assumes c: "conserved tok s" and d: "deck s \<noteq> []"
  shows "conserved tok (s\<lparr>deck := butlast (deck s), aiHand := aiHand s @ [last (deck s)],
                          turn := t, lastAction := act\<rparr>)"
proof -
  from butlast_last_mset[OF d]
  have "mset (zones (s\<lparr>deck := butlast (deck s), aiHand := aiHand s @ [last (deck s)],
                          turn := t, lastAction := act\<rparr>)) = mset (zones s)"
    by (simp add: zones_def add.assoc add.commute add.left_commute)
  with c show ?thesis by (simp add: conserved_def)
qed

lemma conserved_drawCard: "conserved tok s \<Longrightarrow> conserved tok (drawCard rs who s)"
  by (simp add: drawCard_def conserved_reshuffle conserved_drawCardUpdate)

lemma aiTurnUpdate_idle:
  "status s \<noteq> playing \<or> turn s \<noteq> Ai \<or> discardPile s = [] \<Longrightarrow> aiTurnUpdate s = s"
  by (auto simp: aiTurnUpdate_def topOf_def)

lemma aiTurnUpdate_play_plain:
  assumes "status s = playing" "turn s = Ai" "discardPile s \<noteq> []"
    and "playable s \<noteq> []" "rank (chosen s) \<noteq> R8"
  shows "aiTurnUpdate s =
    s\<lparr>aiHand := filter (\<lambda>c. card_id c \<noteq> card_id (chosen s)) (aiHand s),
      discardPile := discardPile s @ [chosen s],
      currentSuit := None,
      turn := Player,
      lastAction := Played Ai (chosen s) None\<rparr>"
  using assms unfolding aiTurnUpdate_def topOf_def Let_def playable_def chosen_def by simp

lemma aiTurnUpdate_play_wild:
  assumes "status s = playing" "turn s = Ai" "discardPile s \<noteq> []"
    and "playable s \<noteq> []" "rank (chosen s) = R8"
  shows "aiTurnUpdate s =
    s\<lparr>aiHand := filter (\<lambda>c. card_id c \<noteq> card_id (chosen s)) (aiHand s),
      discardPile := discardPile s @ [chosen s],
      currentSuit := Some (bestSuit (suitCounts (chosen s) (aiHand s))),
      turn := Player,
      lastAction := Played Ai (chosen s) (Some (bestSuit (suitCounts (chosen s) (aiHand s))))\<rparr>"
  using assms unfolding aiTurnUpdate_def topOf_def Let_def playable_def chosen_def by simp

lemma aiTurnUpdate_draw:
  assumes "status s = playing" "turn s = Ai" "discardPile s \<noteq> []"
    and "playable s = []" "deck s \<noteq> []"
  shows "aiTurnUpdate s =
    s\<lparr>deck := butlast (deck s),
      aiHand := aiHand s @ [last (deck s)],
      turn := (if canPlay (Some (last (deck s))) (Some (last (discardPile s))) (currentSuit s)
               then Ai else Player),
      lastAction := Drew Ai\<rparr>"
  using assms unfolding aiTurnUpdate_def topOf_def Let_def playable_def by simp

lemma aiTurnUpdate_pass:
  assumes "status s = playing" "turn s = Ai" "discardPile s \<noteq> []"
    and "playable s = []" "deck s = []"
  shows "aiTurnUpdate s = s\<lparr>turn := Player, lastAction := AiSkipped\<rparr>"
  using assms unfolding aiTurnUpdate_def topOf_def Let_def playable_def by simp

lemma chosen_in_hand: "playable s \<noteq> [] \<Longrightarrow> chosen s \<in> set (aiHand s)"
proof -
  assume "playable s \<noteq> []"
  then have "chosen s \<in> set (playable s)"
    unfolding chosen_def by (rule chosen_in_playable)
  then show ?thesis by (simp add: playable_def)
qed

lemma conserved_aiTurnUpdate: "conserved tok s \<Longrightarrow> conserved tok (aiTurnUpdate s)"
proof -
  assume c: "conserved tok s"
  show ?thesis
  proof (cases "status s \<noteq> playing \<or> turn s \<noteq> Ai \<or> discardPile s = []")
    case True
    then show ?thesis using c by (simp only: aiTurnUpdate_idle)
  next
    case False
    then have g: "status s = playing" "turn s = Ai" "discardPile s \<noteq> []" by simp_all
    show ?thesis
    proof (cases "playable s = []")
      case True
      show ?thesis
      proof (cases "deck s = []")
        case True
        with c show ?thesis
          by (simp add: aiTurnUpdate_pass[OF g \<open>playable s = []\<close>] conserved_def zones_def)
      next
        case dne: False
        show ?thesis
          unfolding aiTurnUpdate_draw[OF g True dne] by (rule conserved_ai_draw[OF c dne])
      qed
    next
      case ne: False
      note m = chosen_in_hand[OF ne]
      show ?thesis
      proof (cases "rank (chosen s) = R8")
        case True
        show ?thesis
          unfolding aiTurnUpdate_play_wild[OF g ne True] by (rule conserved_ai_play[OF c m])
      next
        case False
        show ?thesis
          unfolding aiTurnUpdate_play_plain[OF g ne False] by (rule conserved_ai_play[OF c m])
      qed
    qed
  qed
qed

lemma conserved_aiTurn: "conserved tok s \<Longrightarrow> conserved tok (aiTurn rs s)"
  by (simp add: aiTurn_def conserved_reshuffle conserved_aiTurnUpdate)

lemma conserved_handlePlayerPlay:
  "conserved tok (state a) \<Longrightarrow> crd \<in> set (playerHand (state a)) \<Longrightarrow>
     conserved tok (state (handlePlayerPlay crd a))"
  by (simp add: handlePlayerPlay_def Let_def conserved_playCard_player conserved_status_update)

lemma conserved_handleSuitSelect:
  "conserved tok (state a) \<Longrightarrow> c \<in> set (playerHand (state a)) \<Longrightarrow>
     conserved tok (state (handleSuitSelect (Some c) su a))"
  by (simp add: handleSuitSelect_def conserved_status_update conserved_playCard_player)

lemma conserved_deckClick:
  "conserved tok (state a) \<Longrightarrow> conserved tok (state (deckClick rs a))"
  by (simp add: deckClick_def conserved_drawCard)

section \<open>Conservation of the cards\<close>

text \<open>
  What keeps the cards. The deal puts the 52 built cards, with distinct identifiers, into
  the four zones. A card click on a card of the human's hand, a click on the draw pile,
  the automated turn, the winner effect, a reshuffle, and a suit choice whose handler
  holds a card of the human's hand all leave the zones a permutation of the built deck.
\<close>

lemma operations_conserve:
  assumes "conserved tok (state a)"
  shows "crd \<in> set (playerHand (state a)) \<longrightarrow> conserved tok (state (handlePlayerPlay crd a))"
    and "c \<in> set (playerHand (state a)) \<longrightarrow> conserved tok (state (handleSuitSelect (Some c) su a))"
    and "conserved tok (state (handleSuitSelect None su a))"
    and "conserved tok (state (deckClick rs a))"
    and "conserved tok (state (aiTurnApp rs a))"
    and "conserved tok (state (winnerEffect a))"
proof -
  show "crd \<in> set (playerHand (state a)) \<longrightarrow> conserved tok (state (handlePlayerPlay crd a))"
    using assms by (simp add: conserved_handlePlayerPlay)
  show "c \<in> set (playerHand (state a)) \<longrightarrow> conserved tok (state (handleSuitSelect (Some c) su a))"
    using assms by (simp add: conserved_handleSuitSelect)
  show "conserved tok (state (handleSuitSelect None su a))"
    using assms by (simp add: handleSuitSelect_def)
  show "conserved tok (state (deckClick rs a))"
    using assms by (rule conserved_deckClick)
  show "conserved tok (state (aiTurnApp rs a))"
    using assms by (simp add: aiTurnApp_def conserved_aiTurn)
  show "conserved tok (state (winnerEffect a))"
    using assms by (simp add: winnerEffect_def conserved_checkWinner)
qed

lemma conserved_zones:
  assumes "conserved tok s"
  shows "length (playerHand s) + length (aiHand s) + length (deck s) + length (discardPile s) = 52"
    and "distinct (map card_id (playerHand s @ aiHand s @ deck s @ discardPile s))"
proof -
  from conserved_length[OF assms]
  show "length (playerHand s) + length (aiHand s) + length (deck s) + length (discardPile s) = 52"
    by (simp add: zones_def)
  from conserved_distinct_ids[OF assms]
  show "distinct (map card_id (playerHand s @ aiHand s @ deck s @ discardPile s))"
    by (simp add: zones_def)
qed

text \<open>
  A suit choice whose handler holds a card that is no longer in the human's hand removes
  nothing from the hand and still appends the card to the discard pile.
\<close>

lemma handleSuitSelect_replay:
  assumes "\<forall>x\<in>set (playerHand (state a)). card_id x \<noteq> card_id c"
  shows "playerHand (state (handleSuitSelect (Some c) su a)) = playerHand (state a)"
    and "aiHand (state (handleSuitSelect (Some c) su a)) = aiHand (state a)"
    and "deck (state (handleSuitSelect (Some c) su a)) = deck (state a)"
    and "discardPile (state (handleSuitSelect (Some c) su a)) = discardPile (state a) @ [c]"
    and "status (state (handleSuitSelect (Some c) su a)) = playing"
  using assms by (simp_all add: handleSuitSelect_def playCard_def Let_def filter_id_conv)

text \<open>The started game, card by card.\<close>

lemma startedApp_value:
  "startedApp =
     \<lparr>state =
        \<lparr>deck = map (exCard diamonds) [R6, R7, R8, R9, R10, RJ, RQ, RK]
                 @ map (exCard clubs) RANKS @ map (exCard spades) RANKS @ [exCard hearts RA],
         playerHand = map (exCard hearts) [R2, R3, R4, R5, R6, R7, R8, R9],
         aiHand = map (exCard hearts) [R10, RJ, RQ, RK] @ map (exCard diamonds) [RA, R2, R3, R4],
         discardPile = [exCard diamonds R5],
         currentSuit = None, turn = Player, status = playing, winner = None,
         lastAction = GameStarted\<rparr>,
      pendingEightCard = None\<rparr>"
  by code_simp

text \<open>
  C2. The claim holds of the operations above, and the code breaks it at the suit choice.
  In the started game the human clicks the 8 of hearts and chooses hearts: the card goes
  from the hand to the discard pile and the zones hold 52 cards. A second click on a suit
  button of the fading modal runs the handler that still holds the 8 of hearts: the hand
  is unchanged, the 8 of hearts is appended to the discard pile again, and the zones hold
  53 cards, one of them twice.
\<close>

theorem second_suit_click_duplicates:
  "playerHand (state startedApp) =
     [exCard hearts R2, exCard hearts R3, exCard hearts R4, exCard hearts R5,
      exCard hearts R6, exCard hearts R7, exCard hearts R8, exCard hearts R9] \<and>
   discardPile (state startedApp) = [exCard diamonds R5] \<and>
   length (playerHand (state startedApp)) + length (aiHand (state startedApp))
     + length (deck (state startedApp)) + length (discardPile (state startedApp)) = 52 \<and>
   status (state firstPending) = suit_selection \<and>
   pendingEightCard firstPending = Some (exCard hearts R8) \<and>
   playerHand (state firstChoice) =
     [exCard hearts R2, exCard hearts R3, exCard hearts R4, exCard hearts R5,
      exCard hearts R6, exCard hearts R7, exCard hearts R9] \<and>
   discardPile (state firstChoice) = [exCard diamonds R5, exCard hearts R8] \<and>
   status (state firstChoice) = playing \<and>
   turn (state firstChoice) = Ai \<and>
   pendingEightCard firstChoice = None \<and>
   length (playerHand (state firstChoice)) + length (aiHand (state firstChoice))
     + length (deck (state firstChoice)) + length (discardPile (state firstChoice)) = 52 \<and>
   playerHand (state secondChoice) = playerHand (state firstChoice) \<and>
   aiHand (state secondChoice) = aiHand (state firstChoice) \<and>
   deck (state secondChoice) = deck (state firstChoice) \<and>
   discardPile (state secondChoice) =
     [exCard diamonds R5, exCard hearts R8, exCard hearts R8] \<and>
   length (playerHand (state secondChoice)) + length (aiHand (state secondChoice))
     + length (deck (state secondChoice)) + length (discardPile (state secondChoice)) = 53 \<and>
   \<not> distinct (playerHand (state secondChoice) @ aiHand (state secondChoice)
                 @ deck (state secondChoice) @ discardPile (state secondChoice))"
  by (simp add: firstPending_def firstChoice_def secondChoice_def startedApp_value
      handlePlayerPlay_def handleSuitSelect_def playCard_def canPlay_def topOf_def
      exCard_def RANKS_def Let_def)

section \<open>Reshuffling\<close>

text \<open>
  C5. \<open>reshuffleIfNeeded\<close> returns the state as it is when the draw pile has more than
  2 cards or the discard pile has at most 1 card. Otherwise the discard pile afterwards
  is exactly its former top card (the same card, so the same identifier), the new draw
  pile is a permutation of the old draw pile together with the discard cards below the
  top, and hands, override, turn, status and winner are as before.
\<close>

theorem reshuffleIfNeeded_spec:
  "(length (deck s) > 2 \<or> length (discardPile s) \<le> 1 \<longrightarrow> reshuffleIfNeeded rs s = s) \<and>
   (length (deck s) \<le> 2 \<and> length (discardPile s) > 1 \<longrightarrow>
      discardPile (reshuffleIfNeeded rs s) = [last (discardPile s)] \<and>
      card_id (last (discardPile (reshuffleIfNeeded rs s))) = card_id (last (discardPile s)) \<and>
      mset (deck (reshuffleIfNeeded rs s)) = mset (deck s) + mset (butlast (discardPile s)) \<and>
      playerHand (reshuffleIfNeeded rs s) = playerHand s \<and>
      aiHand (reshuffleIfNeeded rs s) = aiHand s \<and>
      currentSuit (reshuffleIfNeeded rs s) = currentSuit s \<and>
      turn (reshuffleIfNeeded rs s) = turn s \<and>
      status (reshuffleIfNeeded rs s) = status s \<and>
      winner (reshuffleIfNeeded rs s) = winner s)"
  by (simp add: reshuffleIfNeeded_def Let_def mset_shuffle)

text \<open>
  A draw pile of three cards and a discard pile of one card are left alone; a draw pile
  of one card under a discard pile of three takes the two lower discards.
\<close>

theorem reshuffleIfNeeded_spec_witness:
  "reshuffleIfNeeded [0]
      (exState [exCard hearts R2, exCard hearts R3, exCard hearts R4] [] []
         [exCard clubs R5, exCard clubs R6] None Player)
    = exState [exCard hearts R2, exCard hearts R3, exCard hearts R4] [] []
         [exCard clubs R5, exCard clubs R6] None Player
   \<and> reshuffleIfNeeded [0]
      (exState [exCard hearts R2] [] [] [exCard clubs R5] None Player)
    = exState [exCard hearts R2] [] [] [exCard clubs R5] None Player
   \<and> discardPile (reshuffleIfNeeded [0]
        (exState [exCard hearts R2] [] [] [exCard clubs R5, exCard clubs R6, exCard clubs R7] None Player))
      = [exCard clubs R7]
   \<and> mset (deck (reshuffleIfNeeded [0]
        (exState [exCard hearts R2] [] [] [exCard clubs R5, exCard clubs R6, exCard clubs R7] None Player)))
      = {#exCard hearts R2, exCard clubs R5, exCard clubs R6#}"
  using
    reshuffleIfNeeded_spec[of "exState [exCard hearts R2, exCard hearts R3, exCard hearts R4] [] []
         [exCard clubs R5, exCard clubs R6] None Player" "[0]"]
    reshuffleIfNeeded_spec[of "exState [exCard hearts R2] [] [] [exCard clubs R5] None Player" "[0]"]
    reshuffleIfNeeded_spec[of "exState [exCard hearts R2] [] []
         [exCard clubs R5, exCard clubs R6, exCard clubs R7] None Player" "[0]"]
  by (simp add: exState_def)

section \<open>Dealing\<close>

lemma remove1_nth:
  "i < length xs \<Longrightarrow> xs ! i \<notin> set (take i xs) \<Longrightarrow> remove1 (xs ! i) xs = take i xs @ drop (Suc i) xs"
proof (induction xs arbitrary: i)
  case Nil
  then show ?case by simp
next
  case (Cons a xs)
  show ?case
  proof (cases i)
    case 0
    then show ?thesis by simp
  next
    case (Suc k)
    with Cons.prems have "k < length xs" "xs ! k \<notin> set (take k xs)" "a \<noteq> xs ! k" by auto
    with Cons.IH[of k] Suc show ?thesis by simp
  qed
qed

lemma findIndex_find:
  "findIndex P xs = Some i \<Longrightarrow> List.find P xs = Some (xs ! i)"
  by (induction xs arbitrary: i) (auto split: if_splits)

lemma findIndex_find_None: "findIndex P xs = None \<Longrightarrow> List.find P xs = None"
  by (induction xs) (auto split: if_splits)

lemma cut_at_first:
  fixes P :: "'a \<Rightarrow> bool" and r :: "'a list"
  defines "i \<equiv> (case findIndex P r of None \<Rightarrow> 0 | Some k \<Rightarrow> k)"
  assumes ne: "r \<noteq> []"
  shows "take 1 (drop i r) = [case List.find P r of Some c \<Rightarrow> c | None \<Rightarrow> hd r]"
    and "take i r @ drop (Suc i) r = remove1 (case List.find P r of Some c \<Rightarrow> c | None \<Rightarrow> hd r) r"
proof -
  have il: "i < length r" unfolding i_def using ne by (rule firstCardIndex_less)
  have t: "take 1 (drop i r) = [r ! i]"
    using il by (simp add: take_Suc_conv_app_nth)
  have e: "(case List.find P r of Some c \<Rightarrow> c | None \<Rightarrow> hd r) = r ! i"
  proof (cases "findIndex P r")
    case None
    then show ?thesis using ne by (simp add: i_def findIndex_find_None hd_conv_nth)
  next
    case (Some k)
    then show ?thesis by (simp add: i_def findIndex_find)
  qed
  have n: "r ! i \<notin> set (take i r)"
  proof (cases "findIndex P r")
    case None
    then show ?thesis by (simp add: i_def)
  next
    case (Some k)
    from findIndex_Some[OF Some] have "P (r ! k)" "\<forall>j<k. \<not> P (r ! j)" "k < length r" by simp_all
    then have "r ! k \<notin> set (take k r)"
      by (auto simp: in_set_conv_nth)
    with Some show ?thesis by (simp add: i_def)
  qed
  show "take 1 (drop i r) = [case List.find P r of Some c \<Rightarrow> c | None \<Rightarrow> hd r]"
    using t e by simp
  show "take i r @ drop (Suc i) r = remove1 (case List.find P r of Some c \<Rightarrow> c | None \<Rightarrow> hd r) r"
    using remove1_nth[OF il n] e by simp
qed

lemma dealFrom_fields:
  "playerHand (dealFrom fd) = take 8 fd"
  "aiHand (dealFrom fd) = take 8 (drop 8 fd)"
  "currentSuit (dealFrom fd) = None"
  "turn (dealFrom fd) = Player"
  "status (dealFrom fd) = playing"
  "winner (dealFrom fd) = None"
  by (simp_all add: dealFrom_def Let_def)

lemma dealFrom_piles:
  assumes "16 < length fd"
  shows "discardPile (dealFrom fd) =
           [case List.find (\<lambda>c. rank c \<noteq> R8) (drop 16 fd) of Some c \<Rightarrow> c | None \<Rightarrow> hd (drop 16 fd)]"
    and "deck (dealFrom fd) =
           remove1 (case List.find (\<lambda>c. rank c \<noteq> R8) (drop 16 fd) of Some c \<Rightarrow> c | None \<Rightarrow> hd (drop 16 fd))
             (drop 16 fd)"
proof -
  have r: "drop 8 (drop 8 fd) = drop 16 fd" by simp
  from assms have ne: "drop 16 fd \<noteq> []" by simp
  have d: "discardPile (dealFrom fd) =
      take 1 (drop (case findIndex (\<lambda>c. rank c \<noteq> R8) (drop 8 (drop 8 fd)) of None \<Rightarrow> 0 | Some k \<Rightarrow> k)
        (drop 8 (drop 8 fd)))"
    by (simp only: dealFrom_def Let_def GameState.select_convs)
  show "discardPile (dealFrom fd) =
           [case List.find (\<lambda>c. rank c \<noteq> R8) (drop 16 fd) of Some c \<Rightarrow> c | None \<Rightarrow> hd (drop 16 fd)]"
    unfolding d r by (rule cut_at_first(1)[OF ne])
  have k: "deck (dealFrom fd) =
      take (case findIndex (\<lambda>c. rank c \<noteq> R8) (drop 8 (drop 8 fd)) of None \<Rightarrow> 0 | Some k \<Rightarrow> k)
        (drop 8 (drop 8 fd)) @
      drop (Suc (case findIndex (\<lambda>c. rank c \<noteq> R8) (drop 8 (drop 8 fd)) of None \<Rightarrow> 0 | Some k \<Rightarrow> k))
        (drop 8 (drop 8 fd))"
    by (simp only: dealFrom_def Let_def GameState.select_convs)
  show "deck (dealFrom fd) =
           remove1 (case List.find (\<lambda>c. rank c \<noteq> R8) (drop 16 fd) of Some c \<Rightarrow> c | None \<Rightarrow> hd (drop 16 fd))
             (drop 16 fd)"
    unfolding k r by (rule cut_at_first(2)[OF ne])
qed

text \<open>
  The fallback of the scan: when every card after the first sixteen is wild, the discard
  pile starts with the first of them.
\<close>

lemma dealFrom_all_wild:
  assumes "16 < length fd" and "\<forall>c\<in>set (drop 16 fd). rank c = R8"
  shows "discardPile (dealFrom fd) = [fd ! 16]"
proof -
  from assms(2) have "List.find (\<lambda>c. rank c \<noteq> R8) (drop 16 fd) = None"
    by (simp add: find_None_iff)
  moreover from assms(1) have "hd (drop 16 fd) = fd ! 16"
    by (simp add: hd_drop_conv_nth)
  ultimately show ?thesis
    using dealFrom_piles(1)[OF assms(1)] by simp
qed

text \<open>
  C6. \<open>initGame\<close> shuffles the 52 cards of the four suits and thirteen ranks, deals the
  first 8 to the human and the next 8 to the automated player, starts the discard pile
  with the first of the remaining 36 cards whose rank is not 8 (the first remaining card if
  all of them are wild), leaves the other 35 remaining cards, in their order, as the draw
  pile, and sets the turn to the human, the status to playing and the override to none.
\<close>

theorem initGame_deal:
  "length (createDeck tok rs) = 52 \<and>
   mset (createDeck tok rs) = mset (build tok) \<and>
   map (\<lambda>c. (suit c, rank c)) (build tok) = List.product SUITS RANKS \<and>
   playerHand (initGame tok rs) = take 8 (createDeck tok rs) \<and>
   aiHand (initGame tok rs) = take 8 (drop 8 (createDeck tok rs)) \<and>
   length (playerHand (initGame tok rs)) = 8 \<and>
   length (aiHand (initGame tok rs)) = 8 \<and>
   discardPile (initGame tok rs) =
     [case List.find (\<lambda>c. rank c \<noteq> R8) (drop 16 (createDeck tok rs)) of
        Some c \<Rightarrow> c | None \<Rightarrow> hd (drop 16 (createDeck tok rs))] \<and>
   deck (initGame tok rs) =
     remove1 (hd (discardPile (initGame tok rs))) (drop 16 (createDeck tok rs)) \<and>
   length (deck (initGame tok rs)) = 35 \<and>
   turn (initGame tok rs) = Player \<and>
   status (initGame tok rs) = playing \<and>
   currentSuit (initGame tok rs) = None \<and>
   winner (initGame tok rs) = None"
proof -
  have l: "16 < length (createDeck tok rs)" by (simp add: length_createDeck)
  note p = dealFrom_piles[OF l]
  have ne: "drop 16 (createDeck tok rs) \<noteq> []" using l by simp
  have m: "(case List.find (\<lambda>c. rank c \<noteq> R8) (drop 16 (createDeck tok rs)) of
              Some c \<Rightarrow> c | None \<Rightarrow> hd (drop 16 (createDeck tok rs)))
            \<in> set (drop 16 (createDeck tok rs))"
    using ne by (rule chosen_in_playable)
  have "length (deck (initGame tok rs)) = 35"
    unfolding initGame_def p(2) using m by (simp add: length_remove1 length_createDeck)
  then show ?thesis
    by (simp add: initGame_def dealFrom_fields p length_createDeck suit_rank_build)
       (simp add: createDeck_def mset_shuffle)
qed

section \<open>Drawing\<close>

lemma reshuffle_keeps:
  "playerHand (reshuffleIfNeeded rs s) = playerHand s"
  "aiHand (reshuffleIfNeeded rs s) = aiHand s"
  "turn (reshuffleIfNeeded rs s) = turn s"
  "currentSuit (reshuffleIfNeeded rs s) = currentSuit s"
  "winner (reshuffleIfNeeded rs s) = winner s"
  by (simp_all add: reshuffleIfNeeded_def Let_def)

text \<open>
  C8. A draw from a non-empty draw pile by the player whose turn it is, through
  \<open>drawCard\<close> or through the draw branch of the automated turn, takes the last card of
  the draw pile and appends it to that player's hand; the other hand is as before. The
  turn stays with the drawing player exactly when the drawn card is legal against the
  top of the discard pile and the override, and goes to the other player exactly when
  it is not.
\<close>

theorem draw_spec:
  "(turn s = who \<and> deck s \<noteq> [] \<longrightarrow>
      deck (drawCardUpdate who s) = butlast (deck s) \<and>
      handOf who (drawCard rs who s) = handOf who s @ [last (deck s)] \<and>
      handOf (otherPlayer who) (drawCard rs who s) = handOf (otherPlayer who) s \<and>
      (turn (drawCard rs who s) = turn s) =
        canPlay (Some (last (deck s))) (topOf (discardPile s)) (currentSuit s) \<and>
      (turn (drawCard rs who s) = otherPlayer who) =
        (\<not> canPlay (Some (last (deck s))) (topOf (discardPile s)) (currentSuit s))) \<and>
   (status s = playing \<and> turn s = Ai \<and> discardPile s \<noteq> [] \<and> playable s = [] \<and> deck s \<noteq> [] \<longrightarrow>
      deck (aiTurnUpdate s) = butlast (deck s) \<and>
      aiHand (aiTurn rs s) = aiHand s @ [last (deck s)] \<and>
      playerHand (aiTurn rs s) = playerHand s \<and>
      (turn (aiTurn rs s) = turn s) =
        canPlay (Some (last (deck s))) (topOf (discardPile s)) (currentSuit s) \<and>
      (turn (aiTurn rs s) = Player) =
        (\<not> canPlay (Some (last (deck s))) (topOf (discardPile s)) (currentSuit s)))"
proof (intro conjI impI)
  assume a: "turn s = who \<and> deck s \<noteq> []"
  then show "deck (drawCardUpdate who s) = butlast (deck s)"
    by (simp add: drawCardUpdate_def Let_def)
  from a show "handOf who (drawCard rs who s) = handOf who s @ [last (deck s)]"
    by (simp add: drawCard_def reshuffle_keeps handOf_def drawCardUpdate_def Let_def)
  from a show "handOf (otherPlayer who) (drawCard rs who s) = handOf (otherPlayer who) s"
    by (simp add: drawCard_def reshuffle_keeps handOf_def otherPlayer_def drawCardUpdate_def Let_def)
  from a show "(turn (drawCard rs who s) = turn s) =
        canPlay (Some (last (deck s))) (topOf (discardPile s)) (currentSuit s)"
    by (cases who) (simp_all add: drawCard_def reshuffle_keeps drawCardUpdate_def Let_def)
  from a show "(turn (drawCard rs who s) = otherPlayer who) =
        (\<not> canPlay (Some (last (deck s))) (topOf (discardPile s)) (currentSuit s))"
    by (cases who) (simp_all add: drawCard_def reshuffle_keeps otherPlayer_def drawCardUpdate_def Let_def)
next
  assume a: "status s = playing \<and> turn s = Ai \<and> discardPile s \<noteq> [] \<and> playable s = [] \<and> deck s \<noteq> []"
  then have u: "aiTurnUpdate s =
    s\<lparr>deck := butlast (deck s),
      aiHand := aiHand s @ [last (deck s)],
      turn := (if canPlay (Some (last (deck s))) (Some (last (discardPile s))) (currentSuit s)
               then Ai else Player),
      lastAction := Drew Ai\<rparr>"
    by (simp add: aiTurnUpdate_draw)
  from a have t: "topOf (discardPile s) = Some (last (discardPile s))"
    by (simp add: topOf_def)
  from a have w: "aiTurn rs s = reshuffleIfNeeded rs (aiTurnUpdate s)"
    by (simp add: aiTurn_def)
  show "deck (aiTurnUpdate s) = butlast (deck s)" by (simp add: u)
  show "aiHand (aiTurn rs s) = aiHand s @ [last (deck s)]"
    by (simp add: w reshuffle_keeps) (simp add: u)
  show "playerHand (aiTurn rs s) = playerHand s"
    by (simp add: w reshuffle_keeps) (simp add: u)
  show "(turn (aiTurn rs s) = turn s) =
        canPlay (Some (last (deck s))) (topOf (discardPile s)) (currentSuit s)"
    using a by (simp add: w reshuffle_keeps t) (simp add: u)
  show "(turn (aiTurn rs s) = Player) =
        (\<not> canPlay (Some (last (deck s))) (topOf (discardPile s)) (currentSuit s))"
    using a by (simp add: w reshuffle_keeps t) (simp add: u)
qed

text \<open>
  Three draws: the human and the automated player each draw a legal card and keep the
  turn; the automated player draws a card that is not legal and the turn passes.
\<close>

theorem draw_spec_witness:
  "turn drawHuman = Player \<and> deck drawHuman \<noteq> [] \<and>
   handOf Player (drawCard [] Player drawHuman) = [exCard clubs R5, exCard diamonds R9] \<and>
   handOf (otherPlayer Player) (drawCard [] Player drawHuman) = [exCard clubs R6] \<and>
   turn (drawCard [] Player drawHuman) = Player \<and>
   playable drawAiKeep = [] \<and>
   aiHand (aiTurn [] drawAiKeep) = [exCard clubs R6, exCard diamonds R9] \<and>
   turn (aiTurn [] drawAiKeep) = Ai \<and>
   playable drawAiPass = [] \<and>
   aiHand (aiTurn [] drawAiPass) = [exCard clubs R6, exCard clubs R4] \<and>
   turn (aiTurn [] drawAiPass) = Player"
  using draw_spec[of drawHuman Player "[]"] draw_spec[of drawAiKeep Ai "[]"]
    draw_spec[of drawAiPass Ai "[]"]
  by (simp add: drawHuman_def drawAiKeep_def drawAiPass_def exState_def handOf_def otherPlayer_def
      playable_def canPlay_def exCard_def topOf_def)

section \<open>Winning\<close>

text \<open>
  The winner check finishes a game being played for the human when the human's hand is
  empty (looked at first) and for the automated player when only the automated hand is
  empty.
\<close>

lemma checkWinner_finishes:
  "status s = playing \<Longrightarrow> playerHand s = [] \<Longrightarrow>
     status (checkWinner s) = game_over \<and> winner (checkWinner s) = Some Player"
  "status s = playing \<Longrightarrow> playerHand s \<noteq> [] \<Longrightarrow> aiHand s = [] \<Longrightarrow>
     status (checkWinner s) = game_over \<and> winner (checkWinner s) = Some Ai"
  by (simp_all add: checkWinner_def)

text \<open>
  On a finished game a card click, a click on the draw pile, the automated turn, the
  winner check and a suit choice whose handler holds no card change nothing.
\<close>

lemma finished_noops:
  assumes "status (state a) = game_over"
  shows "handlePlayerPlay crd a = a"
    and "deckClick rs a = a"
    and "aiTurnApp rs a = a"
    and "winnerEffect a = a"
    and "handleSuitSelect None su a = a"
  using assms
  by (simp_all add: handlePlayerPlay_def deckClick_def aiTurnApp_def aiTurn_def
      winnerEffect_def checkWinner_def handleSuitSelect_def)

text \<open>A suit choice whose handler holds a card sets any state back to playing.\<close>

lemma handleSuitSelect_no_status_test:
  "status (state (handleSuitSelect (Some c) su a)) = playing"
  "currentSuit (state (handleSuitSelect (Some c) su a)) = Some su"
  "discardPile (state (handleSuitSelect (Some c) su a)) = discardPile (state a) @ [c]"
  by (simp_all add: handleSuitSelect_def playCard_def Let_def)

text \<open>
  The game in which the human has clicked the 8 of hearts as the last card, card by card.
\<close>

lemma lastPending_value:
  "lastPending =
     \<lparr>state =
        \<lparr>deck = map (exCard diamonds) [R6, R7, R8, R9, R10, RJ, RQ, RK]
                 @ map (exCard clubs) RANKS
                 @ map (exCard spades) [RA, R2, R3, R4, R5, R6, R7, R8, R9, R10, RJ],
         playerHand = [exCard hearts R8],
         aiHand = map (exCard diamonds) [RA, R2, R3, R4] @ [exCard spades RK, exCard spades RQ],
         discardPile =
           [exCard diamonds R5, exCard hearts R5, exCard hearts R10, exCard hearts R2,
            exCard hearts RJ, exCard hearts R3, exCard hearts RQ, exCard hearts R4,
            exCard hearts RK, exCard hearts R6, exCard hearts RA, exCard hearts R7,
            exCard hearts R9],
         currentSuit = None, turn = Player, status = suit_selection, winner = None,
         lastAction = Drew Ai\<rparr>,
      pendingEightCard = Some (exCard hearts R8)\<rparr>"
  by code_simp

text \<open>
  C9. The winner check is as claimed, and a finished game is closed to card clicks, draws
  and the automated turn; the code breaks the claim at the suit choice. In the game that
  the human wins with the 8 of hearts as the last card, the choice of hearts empties the
  hand and the winner effect sets the status to \<open>game_over\<close> with the human as winner. A
  second click on a suit button of the fading modal runs the handler that still holds
  the 8 of hearts: the status is back to playing, the override is the new suit and the
  8 of hearts is on the discard pile twice.
\<close>

theorem finished_game_reopened:
  "status (state lastPending) = suit_selection \<and>
   turn (state lastPending) = Player \<and>
   playerHand (state lastPending) = [exCard hearts R8] \<and>
   pendingEightCard lastPending = Some (exCard hearts R8) \<and>
   status (state wonApp) = game_over \<and>
   winner (state wonApp) = Some Player \<and>
   playerHand (state wonApp) = [] \<and>
   currentSuit (state wonApp) = Some hearts \<and>
   discardPile (state wonApp) =
     [exCard diamonds R5, exCard hearts R5, exCard hearts R10, exCard hearts R2,
      exCard hearts RJ, exCard hearts R3, exCard hearts RQ, exCard hearts R4,
      exCard hearts RK, exCard hearts R6, exCard hearts RA, exCard hearts R7,
      exCard hearts R9, exCard hearts R8] \<and>
   length (playerHand (state wonApp)) + length (aiHand (state wonApp))
     + length (deck (state wonApp)) + length (discardPile (state wonApp)) = 52 \<and>
   status (state reopenedApp) = playing \<and>
   currentSuit (state reopenedApp) = Some diamonds \<and>
   discardPile (state reopenedApp) = discardPile (state wonApp) @ [exCard hearts R8] \<and>
   length (playerHand (state reopenedApp)) + length (aiHand (state reopenedApp))
     + length (deck (state reopenedApp)) + length (discardPile (state reopenedApp)) = 53"
  by (simp add: wonApp_def reopenedApp_def lastPending_value winnerEffect_def checkWinner_def
      handleSuitSelect_def playCard_def exCard_def RANKS_def Let_def)

section \<open>The human plays a wild card\<close>

text \<open>
  C3, as stated, fails. The human holds the 8 of hearts and the 5 of clubs, the top of
  the discard pile is the 8 of diamonds and the override is spades. Clicking the 8 of
  hearts is accepted, and afterwards the card is still in the hand, the discard pile is
  unchanged and the override is still spades: the click only records the card and opens
  the suit choice.
\<close>

theorem human_wild_play_counterexample:
  "canPlay (Some (exCard hearts R8)) (topOf (discardPile (state wildClickApp))) (currentSuit (state wildClickApp)) \<and>
   status (state (handlePlayerPlay (exCard hearts R8) wildClickApp)) = suit_selection \<and>
   turn (state (handlePlayerPlay (exCard hearts R8) wildClickApp)) = Player \<and>
   playerHand (state (handlePlayerPlay (exCard hearts R8) wildClickApp)) =
     [exCard hearts R8, exCard clubs R5] \<and>
   discardPile (state (handlePlayerPlay (exCard hearts R8) wildClickApp)) = [exCard diamonds R8] \<and>
   currentSuit (state (handlePlayerPlay (exCard hearts R8) wildClickApp)) = Some spades \<and>
   \<not> (exCard hearts R8 \<notin> set (playerHand (state (handlePlayerPlay (exCard hearts R8) wildClickApp))) \<and>
      discardPile (state (handlePlayerPlay (exCard hearts R8) wildClickApp)) =
        discardPile (state wildClickApp) @ [exCard hearts R8] \<and>
      currentSuit (state (handlePlayerPlay (exCard hearts R8) wildClickApp)) = None)"
  by (simp add: wildClickApp_def exState_def handlePlayerPlay_def topOf_def canPlay_def exCard_def Let_def)

text \<open>
  C3, amended. When the human, on their turn of a game being played with a non-empty
  discard pile, clicks a card of rank 8, the click records the card as pending and sets
  the status to \<open>suit_selection\<close>; the hand, the discard pile, the override and the turn
  are as before. The suit choice that follows, by the handler of the render in which the
  card is pending, removes the card from the hand (by
  identifier), appends it to the discard pile, sets the override to the chosen suit,
  gives the turn to the automated player, sets the status back to playing and clears
  the pending card.
\<close>

theorem human_wild_play:
  assumes "turn (state a) = Player" and "status (state a) = playing"
    and "discardPile (state a) \<noteq> []" and "rank crd = R8"
  shows "handlePlayerPlay crd a =
           a\<lparr>pendingEightCard := Some crd, state := (state a)\<lparr>status := suit_selection\<rparr>\<rparr>
         \<and> playerHand (state (handlePlayerPlay crd a)) = playerHand (state a)
         \<and> discardPile (state (handlePlayerPlay crd a)) = discardPile (state a)
         \<and> currentSuit (state (handlePlayerPlay crd a)) = currentSuit (state a)
         \<and> turn (state (handlePlayerPlay crd a)) = Player
         \<and> status (state (handlePlayerPlay crd a)) = suit_selection
         \<and> pendingEightCard (handlePlayerPlay crd a) = Some crd
         \<and> handleSuitSelect (pendingEightCard (handlePlayerPlay crd a)) su (handlePlayerPlay crd a) =
             \<lparr>state = (state a)
                 \<lparr>playerHand := filter (\<lambda>c. card_id c \<noteq> card_id crd) (playerHand (state a)),
                  discardPile := discardPile (state a) @ [crd],
                  currentSuit := Some su,
                  turn := Ai,
                  lastAction := Played Player crd (Some su),
                  status := playing\<rparr>,
              pendingEightCard = None\<rparr>"
proof -
  from assms have c: "canPlay (Some crd) (topOf (discardPile (state a))) (currentSuit (state a))"
    by (simp add: canPlay_def)
  from assms c have h: "handlePlayerPlay crd a =
      a\<lparr>pendingEightCard := Some crd, state := (state a)\<lparr>status := suit_selection\<rparr>\<rparr>"
    by (simp add: handlePlayerPlay_def topOf_def Let_def)
  have "handleSuitSelect (Some crd) su
          (a\<lparr>pendingEightCard := Some crd, state := (state a)\<lparr>status := suit_selection\<rparr>\<rparr>) =
             \<lparr>state = (state a)
                 \<lparr>playerHand := filter (\<lambda>c. card_id c \<noteq> card_id crd) (playerHand (state a)),
                  discardPile := discardPile (state a) @ [crd],
                  currentSuit := Some su,
                  turn := Ai,
                  lastAction := Played Player crd (Some su),
                  status := playing\<rparr>,
              pendingEightCard = None\<rparr>"
    by (simp add: handleSuitSelect_def playCard_def Let_def)
  with h assms(1) show ?thesis by simp
qed

text \<open>
  The example above, continued with the choice of clubs.
\<close>

theorem human_wild_play_witness:
  "turn (state wildClickApp) = Player \<and> status (state wildClickApp) = playing \<and>
   discardPile (state wildClickApp) \<noteq> [] \<and> rank (exCard hearts R8) = R8 \<and>
   status (state (handlePlayerPlay (exCard hearts R8) wildClickApp)) = suit_selection \<and>
   pendingEightCard (handlePlayerPlay (exCard hearts R8) wildClickApp) = Some (exCard hearts R8) \<and>
   playerHand (state (handleSuitSelect (pendingEightCard (handlePlayerPlay (exCard hearts R8) wildClickApp)) clubs
       (handlePlayerPlay (exCard hearts R8) wildClickApp))) = [exCard clubs R5] \<and>
   discardPile (state (handleSuitSelect (pendingEightCard (handlePlayerPlay (exCard hearts R8) wildClickApp)) clubs
       (handlePlayerPlay (exCard hearts R8) wildClickApp))) =
     [exCard diamonds R8, exCard hearts R8] \<and>
   currentSuit (state (handleSuitSelect (pendingEightCard (handlePlayerPlay (exCard hearts R8) wildClickApp)) clubs
       (handlePlayerPlay (exCard hearts R8) wildClickApp))) = Some clubs \<and>
   turn (state (handleSuitSelect (pendingEightCard (handlePlayerPlay (exCard hearts R8) wildClickApp)) clubs
       (handlePlayerPlay (exCard hearts R8) wildClickApp))) = Ai \<and>
   status (state (handleSuitSelect (pendingEightCard (handlePlayerPlay (exCard hearts R8) wildClickApp)) clubs
       (handlePlayerPlay (exCard hearts R8) wildClickApp))) = playing"
proof -
  have h: "turn (state wildClickApp) = Player" "status (state wildClickApp) = playing"
    "discardPile (state wildClickApp) \<noteq> []" "rank (exCard hearts R8) = R8"
    by (simp_all add: wildClickApp_def exState_def exCard_def)
  note t = human_wild_play[OF h, of clubs]
  from t have e1: "handlePlayerPlay (exCard hearts R8) wildClickApp =
      wildClickApp\<lparr>pendingEightCard := Some (exCard hearts R8),
             state := (state wildClickApp)\<lparr>status := suit_selection\<rparr>\<rparr>"
    by blast
  from t have e2: "handleSuitSelect (pendingEightCard (handlePlayerPlay (exCard hearts R8) wildClickApp)) clubs
       (handlePlayerPlay (exCard hearts R8) wildClickApp) =
      \<lparr>state = (state wildClickApp)
          \<lparr>playerHand := filter (\<lambda>c. card_id c \<noteq> card_id (exCard hearts R8))
                           (playerHand (state wildClickApp)),
           discardPile := discardPile (state wildClickApp) @ [exCard hearts R8],
           currentSuit := Some clubs,
           turn := Ai,
           lastAction := Played Player (exCard hearts R8) (Some clubs),
           status := playing\<rparr>,
        pendingEightCard = None\<rparr>"
    by blast
  have a: "status (state (handlePlayerPlay (exCard hearts R8) wildClickApp)) = suit_selection"
    "pendingEightCard (handlePlayerPlay (exCard hearts R8) wildClickApp) = Some (exCard hearts R8)"
    by (simp_all add: e1)
  have b: "playerHand (state (handleSuitSelect (pendingEightCard (handlePlayerPlay (exCard hearts R8) wildClickApp)) clubs
       (handlePlayerPlay (exCard hearts R8) wildClickApp))) = [exCard clubs R5]"
    "discardPile (state (handleSuitSelect (pendingEightCard (handlePlayerPlay (exCard hearts R8) wildClickApp)) clubs
       (handlePlayerPlay (exCard hearts R8) wildClickApp))) =
       [exCard diamonds R8, exCard hearts R8]"
    "currentSuit (state (handleSuitSelect (pendingEightCard (handlePlayerPlay (exCard hearts R8) wildClickApp)) clubs
       (handlePlayerPlay (exCard hearts R8) wildClickApp))) = Some clubs"
    "turn (state (handleSuitSelect (pendingEightCard (handlePlayerPlay (exCard hearts R8) wildClickApp)) clubs
       (handlePlayerPlay (exCard hearts R8) wildClickApp))) = Ai"
    "status (state (handleSuitSelect (pendingEightCard (handlePlayerPlay (exCard hearts R8) wildClickApp)) clubs
       (handlePlayerPlay (exCard hearts R8) wildClickApp))) = playing"
    by (simp_all add: e2) (simp_all add: wildClickApp_def exState_def exCard_def)
  from h a b show ?thesis by blast
qed

section \<open>Drawing from an empty pile\<close>

text \<open>
  C4, as stated, fails. First state: it is the human's turn, the draw pile is empty and
  the discard pile has one card, so that a reshuffle leaves the draw pile empty; the
  click on the draw pile changes nothing, and the turn stays with the human. Second
  state: it is the automated player's turn, it has no legal card, the draw pile is empty
  and the discard pile has two cards, so that a reshuffle before the draw would refill
  the pile; the automated player draws nothing and passes, and the reshuffle happens
  afterwards.
\<close>

theorem empty_pile_draw_counterexample:
  "turn (state emptyPileHuman) = Player \<and> status (state emptyPileHuman) = playing \<and>
   deck (reshuffleIfNeeded [] (state emptyPileHuman)) = [] \<and>
   deckClick [] emptyPileHuman = emptyPileHuman \<and>
   turn (state (deckClick [] emptyPileHuman)) \<noteq> Ai \<and>
   turn emptyPileAi = Ai \<and> status emptyPileAi = playing \<and> playable emptyPileAi = [] \<and>
   deck (reshuffleIfNeeded [] emptyPileAi) = [exCard spades R2] \<and>
   aiHand (aiTurn [] emptyPileAi) = [exCard clubs R5] \<and>
   turn (aiTurn [] emptyPileAi) = Player \<and>
   deck (aiTurn [] emptyPileAi) = [exCard spades R2] \<and>
   discardPile (aiTurn [] emptyPileAi) = [exCard diamonds R3]"
  by (simp add: emptyPileHuman_def emptyPileAi_def exState_def deckClick_def drawCard_def drawCardUpdate_def
      reshuffleIfNeeded_def shuffle_def aiTurn_def aiTurnUpdate_def topOf_def playable_def
      canPlay_def exCard_def Let_def)

text \<open>
  C4, amended. When it is the automated player's turn of a game being played, it has no
  legal card and the draw pile is empty, it draws nothing and the turn passes to the
  human; \<open>reshuffleIfNeeded\<close> runs after that, on the state with the turn passed. A
  \<open>drawCard\<close> on an empty draw pile draws nothing either (both hands are as before),
  and the piles afterwards are those of \<open>reshuffleIfNeeded\<close> on the state as it was.
\<close>

theorem empty_pile_pass:
  "(status s = playing \<and> turn s = Ai \<and> discardPile s \<noteq> [] \<and> playable s = [] \<and> deck s = [] \<longrightarrow>
      aiTurn rs s = reshuffleIfNeeded rs (s\<lparr>turn := Player, lastAction := AiSkipped\<rparr>) \<and>
      aiHand (aiTurn rs s) = aiHand s \<and>
      playerHand (aiTurn rs s) = playerHand s \<and>
      turn (aiTurn rs s) = Player) \<and>
   (deck s = [] \<longrightarrow>
      playerHand (drawCard rs who s) = playerHand s \<and>
      aiHand (drawCard rs who s) = aiHand s \<and>
      deck (drawCard rs who s) = deck (reshuffleIfNeeded rs s) \<and>
      discardPile (drawCard rs who s) = discardPile (reshuffleIfNeeded rs s))"
proof (intro conjI impI)
  assume a: "status s = playing \<and> turn s = Ai \<and> discardPile s \<noteq> [] \<and> playable s = [] \<and> deck s = []"
  then have u: "aiTurnUpdate s = s\<lparr>turn := Player, lastAction := AiSkipped\<rparr>"
    by (simp add: aiTurnUpdate_pass)
  show w: "aiTurn rs s = reshuffleIfNeeded rs (s\<lparr>turn := Player, lastAction := AiSkipped\<rparr>)"
    using a by (simp add: aiTurn_def u)
  show "aiHand (aiTurn rs s) = aiHand s" by (simp add: w reshuffle_keeps)
  show "playerHand (aiTurn rs s) = playerHand s" by (simp add: w reshuffle_keeps)
  show "turn (aiTurn rs s) = Player" by (simp add: w reshuffle_keeps)
next
  assume "deck s = []"
  then have d: "drawCard rs who s = reshuffleIfNeeded rs s"
    by (simp add: drawCard_def drawCardUpdate_def)
  show "playerHand (drawCard rs who s) = playerHand s" by (simp add: d reshuffle_keeps)
  show "aiHand (drawCard rs who s) = aiHand s" by (simp add: d reshuffle_keeps)
  show "deck (drawCard rs who s) = deck (reshuffleIfNeeded rs s)" by (simp add: d)
  show "discardPile (drawCard rs who s) = discardPile (reshuffleIfNeeded rs s)" by (simp add: d)
qed

text \<open>
  The second state above, and a human draw in the first.
\<close>

theorem empty_pile_pass_witness:
  "status emptyPileAi = playing \<and> turn emptyPileAi = Ai \<and> discardPile emptyPileAi \<noteq> [] \<and>
   playable emptyPileAi = [] \<and> deck emptyPileAi = [] \<and>
   aiHand (aiTurn [] emptyPileAi) = aiHand emptyPileAi \<and>
   turn (aiTurn [] emptyPileAi) = Player \<and>
   deck (state emptyPileHuman) = [] \<and>
   playerHand (drawCard [] Player (state emptyPileHuman)) = playerHand (state emptyPileHuman) \<and>
   aiHand (drawCard [] Player (state emptyPileHuman)) = aiHand (state emptyPileHuman)"
proof -
  have h: "status emptyPileAi = playing" "turn emptyPileAi = Ai" "discardPile emptyPileAi \<noteq> []"
    "playable emptyPileAi = []" "deck emptyPileAi = []"
    by (simp_all add: emptyPileAi_def exState_def playable_def canPlay_def exCard_def)
  have k: "deck (state emptyPileHuman) = []"
    by (simp add: emptyPileHuman_def exState_def)
  from empty_pile_pass[of emptyPileAi "[]" Player] empty_pile_pass[of "state emptyPileHuman" "[]" Player] h k
  show ?thesis by blast
qed

section \<open>The automated player\<close>

lemma find_filter: "List.find P (filter Q xs) = List.find (\<lambda>x. Q x \<and> P x) xs"
  by (induction xs) auto

lemma find_hd_filter: "filter Q xs \<noteq> [] \<Longrightarrow> List.find Q xs = Some (hd (filter Q xs))"
  by (induction xs) auto

lemma suitCounts_fold:
  "foldl (\<lambda>cnt c. if card_id c \<noteq> card_id p then cnt(suit c := cnt (suit c) + 1) else cnt) acc hand su
     = acc su + countSuit (filter (\<lambda>x. card_id x \<noteq> card_id p) hand) su"
  by (induction hand arbitrary: acc) (auto simp: countSuit_def)

lemma suitCounts_countSuit:
  "suitCounts p hand su = countSuit (filter (\<lambda>x. card_id x \<noteq> card_id p) hand) su"
  by (simp add: suitCounts_def suitCounts_fold)

lemma bestSuit_max: "cnt su \<le> cnt (bestSuit cnt)"
  by (cases su) (auto simp: bestSuit_def)

lemma bestSuit_tie: "cnt su = cnt (bestSuit cnt) \<Longrightarrow> suitIndex su \<le> suitIndex (bestSuit cnt)"
  by (cases su) (auto simp: bestSuit_def split: if_splits)

lemma playable_find:
  "discardPile s \<noteq> [] \<Longrightarrow>
   List.find (\<lambda>c. rank c \<noteq> R8) (playable s) =
     List.find (\<lambda>c. canPlay (Some c) (topOf (discardPile s)) (currentSuit s) \<and> rank c \<noteq> R8) (aiHand s)"
  by (simp add: playable_def find_filter topOf_def)

lemma playable_hd:
  "discardPile s \<noteq> [] \<Longrightarrow>
   List.find (\<lambda>c. canPlay (Some c) (topOf (discardPile s)) (currentSuit s)) (aiHand s) = Some c \<Longrightarrow>
   playable s \<noteq> [] \<and> hd (playable s) = c"
proof -
  assume ne: "discardPile s \<noteq> []"
    and f: "List.find (\<lambda>c. canPlay (Some c) (topOf (discardPile s)) (currentSuit s)) (aiHand s) = Some c"
  from ne have t: "topOf (discardPile s) = Some (last (discardPile s))" by (simp add: topOf_def)
  from f have "c \<in> set (aiHand s)" "canPlay (Some c) (topOf (discardPile s)) (currentSuit s)"
    by (auto simp: find_Some_iff)
  then have p: "playable s \<noteq> []"
    by (auto simp: playable_def t filter_empty_conv)
  then have "List.find (\<lambda>c. canPlay (Some c) (Some (last (discardPile s))) (currentSuit s)) (aiHand s)
      = Some (hd (playable s))"
    unfolding playable_def by (rule find_hd_filter)
  with f t p show ?thesis by simp
qed

text \<open>
  C7. On its turn of a game being played, with a top card on the discard pile, the
  automated player's move is a function of its hand, the top card and the override. It
  tests its hand with \<open>canPlay\<close> against the top card and the override, as the human's
  click does. If some card of the hand is legal and not wild, it plays the first such
  card in hand order and clears the override. If every legal card is wild, it plays the
  first legal card, a wild one, and nominates a suit whose number of cards in the rest of
  the hand (the hand without the cards that carry the played card's identifier) is
  greatest; among the suits with that greatest number it is the last in the order
  hearts, diamonds, clubs, spades. If no card is legal, it plays nothing.
\<close>

theorem ai_policy:
  assumes "status s = playing" and "turn s = Ai" and "discardPile s \<noteq> []"
  shows
    "(List.find (\<lambda>x. canPlay (Some x) (topOf (discardPile s)) (currentSuit s) \<and> rank x \<noteq> R8)
        (aiHand s) = Some c \<longrightarrow>
        aiTurnUpdate s =
          s\<lparr>aiHand := filter (\<lambda>x. card_id x \<noteq> card_id c) (aiHand s),
            discardPile := discardPile s @ [c],
            currentSuit := None,
            turn := Player,
            lastAction := Played Ai c None\<rparr>) \<and>
     (List.find (\<lambda>x. canPlay (Some x) (topOf (discardPile s)) (currentSuit s) \<and> rank x \<noteq> R8)
        (aiHand s) = None \<and>
      List.find (\<lambda>x. canPlay (Some x) (topOf (discardPile s)) (currentSuit s)) (aiHand s) = Some c \<longrightarrow>
        rank c = R8 \<and>
        aiTurnUpdate s =
          s\<lparr>aiHand := filter (\<lambda>x. card_id x \<noteq> card_id c) (aiHand s),
            discardPile := discardPile s @ [c],
            currentSuit := Some (bestSuit (suitCounts c (aiHand s))),
            turn := Player,
            lastAction := Played Ai c (Some (bestSuit (suitCounts c (aiHand s))))\<rparr> \<and>
        (\<forall>su. countSuit (filter (\<lambda>x. card_id x \<noteq> card_id c) (aiHand s)) su
               \<le> countSuit (filter (\<lambda>x. card_id x \<noteq> card_id c) (aiHand s))
                    (bestSuit (suitCounts c (aiHand s)))) \<and>
        (\<forall>su. countSuit (filter (\<lambda>x. card_id x \<noteq> card_id c) (aiHand s)) su
               = countSuit (filter (\<lambda>x. card_id x \<noteq> card_id c) (aiHand s))
                    (bestSuit (suitCounts c (aiHand s)))
             \<longrightarrow> suitIndex su \<le> suitIndex (bestSuit (suitCounts c (aiHand s))))) \<and>
     (List.find (\<lambda>x. canPlay (Some x) (topOf (discardPile s)) (currentSuit s)) (aiHand s) = None \<longrightarrow>
        discardPile (aiTurnUpdate s) = discardPile s \<and>
        currentSuit (aiTurnUpdate s) = currentSuit s)"
proof (intro conjI impI)
  let ?legal = "\<lambda>x. canPlay (Some x) (topOf (discardPile s)) (currentSuit s)"
  note ne = assms(3)
  {
    assume f: "List.find (\<lambda>x. ?legal x \<and> rank x \<noteq> R8) (aiHand s) = Some c"
    then have c: "c \<in> set (aiHand s)" "?legal c" "rank c \<noteq> R8"
      by (auto simp: find_Some_iff)
    from f have fp: "List.find (\<lambda>c. rank c \<noteq> R8) (playable s) = Some c"
      by (simp add: playable_find[OF ne])
    then have p: "playable s \<noteq> []" by auto
    from fp have ch: "chosen s = c" by (simp add: chosen_def)
    from c(3) ch have r: "rank (chosen s) \<noteq> R8" by simp
    show "aiTurnUpdate s =
          s\<lparr>aiHand := filter (\<lambda>x. card_id x \<noteq> card_id c) (aiHand s),
            discardPile := discardPile s @ [c],
            currentSuit := None,
            turn := Player,
            lastAction := Played Ai c None\<rparr>"
      using aiTurnUpdate_play_plain[OF assms p r] by (simp add: ch)
  }
  {
    assume a: "List.find (\<lambda>x. ?legal x \<and> rank x \<noteq> R8) (aiHand s) = None \<and>
        List.find ?legal (aiHand s) = Some c"
    then have n: "List.find (\<lambda>x. ?legal x \<and> rank x \<noteq> R8) (aiHand s) = None"
      and f: "List.find ?legal (aiHand s) = Some c" by simp_all
    from f have c: "c \<in> set (aiHand s)" "?legal c" by (auto simp: find_Some_iff)
    with n show r8: "rank c = R8" by (auto simp: find_None_iff)
    from playable_hd[OF ne f] have p: "playable s \<noteq> []" and h: "hd (playable s) = c" by simp_all
    from n have "List.find (\<lambda>c. rank c \<noteq> R8) (playable s) = None"
      by (simp add: playable_find[OF ne])
    with h have ch: "chosen s = c" by (simp add: chosen_def)
    from r8 ch have r: "rank (chosen s) = R8" by simp
    show "aiTurnUpdate s =
          s\<lparr>aiHand := filter (\<lambda>x. card_id x \<noteq> card_id c) (aiHand s),
            discardPile := discardPile s @ [c],
            currentSuit := Some (bestSuit (suitCounts c (aiHand s))),
            turn := Player,
            lastAction := Played Ai c (Some (bestSuit (suitCounts c (aiHand s))))\<rparr>"
      using aiTurnUpdate_play_wild[OF assms p r] by (simp add: ch)
    show "\<forall>su. countSuit (filter (\<lambda>x. card_id x \<noteq> card_id c) (aiHand s)) su
               \<le> countSuit (filter (\<lambda>x. card_id x \<noteq> card_id c) (aiHand s))
                    (bestSuit (suitCounts c (aiHand s)))"
      using bestSuit_max[of "suitCounts c (aiHand s)"] by (simp add: suitCounts_countSuit)
    show "\<forall>su. countSuit (filter (\<lambda>x. card_id x \<noteq> card_id c) (aiHand s)) su
               = countSuit (filter (\<lambda>x. card_id x \<noteq> card_id c) (aiHand s))
                    (bestSuit (suitCounts c (aiHand s)))
             \<longrightarrow> suitIndex su \<le> suitIndex (bestSuit (suitCounts c (aiHand s)))"
      using bestSuit_tie[of "suitCounts c (aiHand s)"] by (simp add: suitCounts_countSuit)
  }
  {
    assume "List.find ?legal (aiHand s) = None"
    then have p: "playable s = []"
      using ne by (auto simp: playable_def topOf_def find_None_iff filter_empty_conv)
    show "discardPile (aiTurnUpdate s) = discardPile s"
      by (cases "deck s = []")
        (simp_all add: aiTurnUpdate_pass[OF assms p] aiTurnUpdate_draw[OF assms p])
    show "currentSuit (aiTurnUpdate s) = currentSuit s"
      by (cases "deck s = []")
        (simp_all add: aiTurnUpdate_pass[OF assms p] aiTurnUpdate_draw[OF assms p])
  }
qed

text \<open>
  Two moves. With 8 of diamonds, 5 of hearts and 5 of clubs in hand on a 5 of spades, the
  5 of hearts is played. With 4 of hearts, 8 of diamonds, 6 of clubs and 7 of diamonds in
  hand on a 5 of spades, the 8 is played, and of hearts, diamonds and clubs, one card
  each in the rest of the hand, clubs is nominated.
\<close>

theorem ai_policy_witness:
  "status policyPlain = playing \<and> turn policyPlain = Ai \<and> discardPile policyPlain \<noteq> [] \<and>
   aiHand (aiTurnUpdate policyPlain) = [exCard diamonds R8, exCard clubs R5] \<and>
   discardPile (aiTurnUpdate policyPlain) = [exCard spades R5, exCard hearts R5] \<and>
   currentSuit (aiTurnUpdate policyPlain) = None \<and>
   turn (aiTurnUpdate policyPlain) = Player \<and>
   status policyWild = playing \<and> turn policyWild = Ai \<and> discardPile policyWild \<noteq> [] \<and>
   aiHand (aiTurnUpdate policyWild) = [exCard hearts R4, exCard clubs R6, exCard diamonds R7] \<and>
   discardPile (aiTurnUpdate policyWild) = [exCard spades R5, exCard diamonds R8] \<and>
   currentSuit (aiTurnUpdate policyWild) = Some clubs \<and>
   turn (aiTurnUpdate policyWild) = Player"
proof -
  have h1: "status policyPlain = playing" "turn policyPlain = Ai" "discardPile policyPlain \<noteq> []"
    by (simp_all add: policyPlain_def exState_def)
  have f1: "List.find (\<lambda>x. canPlay (Some x) (topOf (discardPile policyPlain)) (currentSuit policyPlain)
                \<and> rank x \<noteq> R8) (aiHand policyPlain) = Some (exCard hearts R5)"
    by (simp add: policyPlain_def exState_def topOf_def canPlay_def exCard_def)
  from ai_policy[OF h1, of "exCard hearts R5"] f1
  have e1: "aiTurnUpdate policyPlain =
      policyPlain\<lparr>aiHand := filter (\<lambda>x. card_id x \<noteq> card_id (exCard hearts R5)) (aiHand policyPlain),
        discardPile := discardPile policyPlain @ [exCard hearts R5],
        currentSuit := None, turn := Player,
        lastAction := Played Ai (exCard hearts R5) None\<rparr>"
    by blast
  have h2: "status policyWild = playing" "turn policyWild = Ai" "discardPile policyWild \<noteq> []"
    by (simp_all add: policyWild_def exState_def)
  have f2: "List.find (\<lambda>x. canPlay (Some x) (topOf (discardPile policyWild)) (currentSuit policyWild)
                \<and> rank x \<noteq> R8) (aiHand policyWild) = None"
    "List.find (\<lambda>x. canPlay (Some x) (topOf (discardPile policyWild)) (currentSuit policyWild))
        (aiHand policyWild) = Some (exCard diamonds R8)"
    by (simp_all add: policyWild_def exState_def topOf_def canPlay_def exCard_def)
  from ai_policy[OF h2, of "exCard diamonds R8"] f2
  have e2: "aiTurnUpdate policyWild =
      policyWild\<lparr>aiHand := filter (\<lambda>x. card_id x \<noteq> card_id (exCard diamonds R8)) (aiHand policyWild),
        discardPile := discardPile policyWild @ [exCard diamonds R8],
        currentSuit := Some (bestSuit (suitCounts (exCard diamonds R8) (aiHand policyWild))),
        turn := Player,
        lastAction := Played Ai (exCard diamonds R8)
          (Some (bestSuit (suitCounts (exCard diamonds R8) (aiHand policyWild))))\<rparr>"
    by blast
  have b: "bestSuit (suitCounts (exCard diamonds R8) (aiHand policyWild)) = clubs"
    by (simp add: policyWild_def exState_def exCard_def suitCounts_def bestSuit_def)
  have r1: "aiHand (aiTurnUpdate policyPlain) = [exCard diamonds R8, exCard clubs R5]"
    "discardPile (aiTurnUpdate policyPlain) = [exCard spades R5, exCard hearts R5]"
    "currentSuit (aiTurnUpdate policyPlain) = None"
    "turn (aiTurnUpdate policyPlain) = Player"
    by (simp_all add: e1) (simp_all add: policyPlain_def exState_def exCard_def)
  have r2: "aiHand (aiTurnUpdate policyWild) = [exCard hearts R4, exCard clubs R6, exCard diamonds R7]"
    "discardPile (aiTurnUpdate policyWild) = [exCard spades R5, exCard diamonds R8]"
    "currentSuit (aiTurnUpdate policyWild) = Some clubs"
    "turn (aiTurnUpdate policyWild) = Player"
    by (simp_all add: e2 b) (simp_all add: policyWild_def exState_def exCard_def)
  from h1 h2 r1 r2 show ?thesis by blast
qed

end
